theory Spec2Isabelle
  imports Main "HOL-Library.Word" "HOL-Library.AList" "HOL-Library.Multiset"
begin

unbundle bit_operations_syntax

section \<open>OBD over CAN: ECU discovery and connect (OBDOverCANModule.cpp)\<close>

type_synonym uint32 = "32 word"

text \<open>
  Modelled from the spec: the masking constants and the \<open>ECUID\<close> enumerators are declared
  in the headers OBDOverCANModule.h and OBDDataTypes.h, outside the modelled sources. Their
  values are the ones given by the comments of \<open>getTxIDByRxID\<close> and \<open>autoDetectECUs\<close>
  (\<open>rx_id & 0xFF\<close>, \<open><< 8\<close>, \<open>| 0x18DA00F1\<close>, \<open>rx_id - 0x8\<close>, ranges
  \<open>[7E8, 7EF]\<close> and \<open>[18DAF100, 18DAF1FF]\<close>) and by the discovery paragraph of the
  specification. \<open>CAN_EFF_MASK\<close> is the 29-bit mask of linux/can.h.
\<close>

definition MASKING_GET_BYTE :: uint32 where
  "MASKING_GET_BYTE = 0xFF"

definition MASKING_SHIFT_BITS :: nat where
  "MASKING_SHIFT_BITS = 8"

definition MASKING_TEMPLATE_TX_ID :: uint32 where
  "MASKING_TEMPLATE_TX_ID = 0x18DA00F1"

definition MASKING_REMOVE_BYTE :: uint32 where
  "MASKING_REMOVE_BYTE = 0x8"

definition CAN_EFF_MASK :: uint32 where
  "CAN_EFF_MASK = 0x1FFFFFFF"

definition LOWEST_ECU_RX_ID :: uint32 where
  "LOWEST_ECU_RX_ID = 0x7E8"

definition HIGHEST_ECU_RX_ID :: uint32 where
  "HIGHEST_ECU_RX_ID = 0x7EF"

definition LOWEST_ECU_EXTENDED_RX_ID :: uint32 where
  "LOWEST_ECU_EXTENDED_RX_ID = 0x18DAF100"

definition HIGHEST_ECU_EXTENDED_RX_ID :: uint32 where
  "HIGHEST_ECU_EXTENDED_RX_ID = 0x18DAF1FF"

text \<open>\<open>OBDOverCANModule::getTxIDByRxID\<close>; \<open>uint32_t\<close> subtraction wraps.\<close>

definition getTxIDByRxID :: "bool \<Rightarrow> uint32 \<Rightarrow> uint32" where
  "getTxIDByRxID isExtendedID rxId =
     (if isExtendedID
      then (push_bit MASKING_SHIFT_BITS (rxId AND MASKING_GET_BYTE)) OR MASKING_TEMPLATE_TX_ID
      else rxId - MASKING_REMOVE_BYTE)"

text \<open>
  The body of the receive loop of \<open>autoDetectECUs\<close> after a frame has been read: the
  identifier that is compared, and the range check.
\<close>

definition frameCANId :: "bool \<Rightarrow> uint32 \<Rightarrow> uint32" where
  "frameCANId isExtendedID can_id = (if isExtendedID then can_id AND CAN_EFF_MASK else can_id)"

definition smallestCANId :: "bool \<Rightarrow> uint32" where
  "smallestCANId isExtendedID =
     (if isExtendedID then LOWEST_ECU_EXTENDED_RX_ID else LOWEST_ECU_RX_ID)"

definition biggestCANId :: "bool \<Rightarrow> uint32" where
  "biggestCANId isExtendedID =
     (if isExtendedID then HIGHEST_ECU_EXTENDED_RX_ID else HIGHEST_ECU_RX_ID)"

definition isValidCANId :: "bool \<Rightarrow> uint32 \<Rightarrow> bool" where
  "isValidCANId isExtendedID can_id \<longleftrightarrow>
     smallestCANId isExtendedID \<le> frameCANId isExtendedID can_id \<and>
     frameCANId isExtendedID can_id \<le> biggestCANId isExtendedID"

text \<open>
  What one turn of the receive loop of \<open>autoDetectECUs\<close> meets, in the order the loop
  tests it: the stop flag, the one-second broadcast timer, \<open>poll\<close> failing or timing out,
  \<open>recv\<close> failing, or a frame with its \<open>can_id\<close>.
\<close>

datatype rx_event =
    ShouldStop
  | TimerElapsed
  | PollError
  | PollTimeout
  | RecvError
  | Received uint32

text \<open>
  The receive loop. The result is the function's return value on this path (\<open>False\<close> for
  the early error returns) and \<open>canIDResponses\<close>. A socket with nothing more to deliver
  makes \<open>poll\<close> time out, so an exhausted event list ends the loop like \<open>PollTimeout\<close>.
\<close>

fun autoDetectECUs_loop :: "bool \<Rightarrow> rx_event list \<Rightarrow> uint32 list \<Rightarrow> bool \<times> uint32 list" where
  "autoDetectECUs_loop isExtendedID [] canIDResponses = (True, canIDResponses)"
| "autoDetectECUs_loop isExtendedID (ShouldStop # es) canIDResponses = (True, canIDResponses)"
| "autoDetectECUs_loop isExtendedID (TimerElapsed # es) canIDResponses = (True, canIDResponses)"
| "autoDetectECUs_loop isExtendedID (PollError # es) canIDResponses = (False, canIDResponses)"
| "autoDetectECUs_loop isExtendedID (PollTimeout # es) canIDResponses = (True, canIDResponses)"
| "autoDetectECUs_loop isExtendedID (RecvError # es) canIDResponses = (False, canIDResponses)"
| "autoDetectECUs_loop isExtendedID (Received can_id # es) canIDResponses =
     autoDetectECUs_loop isExtendedID es
       (if isValidCANId isExtendedID can_id
        then canIDResponses @ [frameCANId isExtendedID can_id]
        else canIDResponses)"

text \<open>
  \<open>autoDetectECUs\<close>: \<open>setupOk\<close> stands for the socket being created, bound and the
  broadcast request written; \<open>closeOk\<close> for the final \<open>close\<close>.
\<close>

definition autoDetectECUs ::
  "bool \<Rightarrow> bool \<Rightarrow> rx_event list \<Rightarrow> bool \<Rightarrow> uint32 list \<Rightarrow> bool \<times> uint32 list" where
  "autoDetectECUs isExtendedID setupOk events closeOk canIDResponses =
     (if \<not> setupOk then (False, canIDResponses)
      else (case autoDetectECUs_loop isExtendedID events canIDResponses of
              (ok, rs) \<Rightarrow> if \<not> ok then (False, rs) else if \<not> closeOk then (False, rs) else (True, rs)))"

text \<open>
  \<open>initECUs\<close>: one ECU per distinct response, in the order of the \<open>std::set\<close>. An ECU is
  recorded by its rx and tx identifiers; \<open>initOk\<close> stands for \<open>OBDOverCANECU::init\<close>.
\<close>

fun initECUs_loop ::
  "bool \<Rightarrow> (uint32 \<Rightarrow> bool) \<Rightarrow> uint32 list \<Rightarrow> (uint32 \<times> uint32) list \<Rightarrow> bool \<times> (uint32 \<times> uint32) list" where
  "initECUs_loop isExtendedID initOk [] mECUs = (True, mECUs)"
| "initECUs_loop isExtendedID initOk (rxID # rest) mECUs =
     (if \<not> initOk rxID then (False, mECUs)
      else initECUs_loop isExtendedID initOk rest
             (mECUs @ [(rxID, getTxIDByRxID isExtendedID rxID)]))"

definition initECUs ::
  "bool \<Rightarrow> (uint32 \<Rightarrow> bool) \<Rightarrow> uint32 list \<Rightarrow> (uint32 \<times> uint32) list \<Rightarrow> bool \<times> (uint32 \<times> uint32) list" where
  "initECUs isExtendedID initOk canIDResponses mECUs =
     initECUs_loop isExtendedID initOk (sort (remdups canIDResponses)) mECUs"

subsection \<open>The module and its worker thread\<close>

text \<open>
  What the module sends on the bus or asks one of its ECUs to send: the discovery broadcast
  written by \<open>autoDetectECUs\<close> (with the addressing used), and the calls of
  \<open>requestReceiveSupportedPIDs\<close>, \<open>requestReceiveEmissionPIDs\<close> and \<open>getDTCData\<close> on the
  ECU with the given rx ID.
\<close>

datatype obd_request =
    BroadcastRequest bool
  | RequestReceiveSupportedPIDs uint32
  | RequestReceiveEmissionPIDs uint32
  | GetDTCData uint32

text \<open>
  Modelled from the spec: the classes \<open>Thread\<close>, \<open>Timer\<close> and \<open>Signal\<close> and the macro
  \<open>FWE_GRACEFUL_FATAL_ASSERT\<close> are declared outside the modelled sources. The worker thread
  is recorded by the two flags \<open>Thread::isValid\<close> and \<open>Thread::isActive\<close> and by where it
  stands in \<open>doWork\<close>, which runs only inside that thread: no thread runs it; it is in
  the first loop (ECU detection); it is in the second loop, with the local
  \<open>hasAcquiredSupportedPIDs\<close>; or \<open>doWork\<close> has returned from a failed assertion (the
  specification: an open failure on the broadcast socket is fatal). A timer is recorded by
  the reading of the clock (in seconds) at its last reset, and its elapsed time is the
  current reading minus that one.
\<close>

datatype doWork_position = NoThread | DetectingECUs | AcquiringData bool | Returned

text \<open>
  The fields of the module that \<open>connect\<close>, \<open>start\<close>, \<open>stop\<close>, \<open>doWork\<close> and the two
  listeners read or write. The decoder dictionary is recorded by its PIDs, an ECU by its rx
  and tx identifiers, the thread and the timers as said above, and \<open>busRequests\<close> logs the
  requests in the order they are made.
\<close>

record OBDOverCANModule =
  mPIDRequestIntervalSeconds :: uint32
  mDTCRequestIntervalSeconds :: uint32
  mBroadcastRequests :: bool
  mShouldStop :: bool
  mDecoderManifestAvailable :: bool
  mShouldRequestDTCs :: bool
  mThreadValid :: bool
  mThreadActive :: bool
  doWorkAt :: doWork_position
  mDecoderDictionary :: "nat list"
  mECUs :: "(uint32 \<times> uint32) list"
  mBroadcastSocket :: int
  mPIDTimer :: nat
  mDTCTimer :: nat
  busRequests :: "obd_request list"

text \<open>
  \<open>OBDOverCANModule::start\<close>. \<open>created\<close> is the result of \<open>mThread.create\<close>: the
  Thread class is declared outside the modelled sources; a thread that was created is valid
  and active and runs \<open>doWork\<close> from its beginning.
\<close>

definition start :: "bool \<Rightarrow> OBDOverCANModule \<Rightarrow> bool \<times> OBDOverCANModule" where
  "start created m =
     (let m1 = m\<lparr>mShouldStop := False, mDecoderManifestAvailable := False,
                  mShouldRequestDTCs := False\<rparr>;
          m2 = (if created
                then m1\<lparr>mThreadValid := True, mThreadActive := True, doWorkAt := DetectingECUs\<rparr>
                else m1)
      in (mThreadActive m2 \<and> mThreadValid m2, m2))"

text \<open>
  \<open>OBDOverCANModule::stop\<close>. \<open>mThread.release\<close> waits for \<open>doWork\<close> to leave its loops
  on \<open>mShouldStop\<close>; afterwards no thread runs \<open>doWork\<close> and the thread is neither valid nor
  active.
\<close>

definition stop :: "OBDOverCANModule \<Rightarrow> bool \<times> OBDOverCANModule" where
  "stop m =
     (if \<not> mThreadValid m \<or> \<not> mThreadActive m then (True, m)
      else (let m1 = m\<lparr>mShouldStop := True\<rparr>;
                m2 = m1\<lparr>mThreadValid := False, mThreadActive := False, doWorkAt := NoThread\<rparr>;
                m3 = m2\<lparr>mShouldStop := False\<rparr>
            in (\<not> mThreadActive m3, m3)))"

text \<open>\<open>OBDOverCANModule::connect\<close>.\<close>

definition connect :: "bool \<Rightarrow> OBDOverCANModule \<Rightarrow> bool \<times> OBDOverCANModule" where
  "connect created m =
     (if mPIDRequestIntervalSeconds m = 0 \<and> mDTCRequestIntervalSeconds m = 0
      then (True, m)
      else start created m)"

text \<open>\<open>OBDOverCANModule::disconnect\<close>.\<close>

definition disconnect :: "OBDOverCANModule \<Rightarrow> bool \<times> OBDOverCANModule" where
  "disconnect m = stop m"

text \<open>
  \<open>OBDOverCANModule::assignPIDsToECUs\<close>: the supported PIDs are requested from every ECU of
  \<open>mECUs\<close>. The PID allocation table is not recorded.
\<close>

definition assignPIDsToECUs :: "OBDOverCANModule \<Rightarrow> OBDOverCANModule" where
  "assignPIDsToECUs m =
     m\<lparr>busRequests := busRequests m @
          map (\<lambda>ecu. RequestReceiveSupportedPIDs (fst ecu)) (mECUs m)\<rparr>"

text \<open>
  \<open>OBDOverCANModule::onChangeInspectionMatrix\<close>. The inspection matrix is given by the
  \<open>includeActiveDtcs\<close> flags of its conditions; \<open>None\<close> is the null pointer.
\<close>

definition onChangeInspectionMatrix ::
  "bool list option \<Rightarrow> OBDOverCANModule \<Rightarrow> OBDOverCANModule" where
  "onChangeInspectionMatrix inspectionMatrix m =
     (case inspectionMatrix of
        None \<Rightarrow> m
      | Some conditions \<Rightarrow>
          if list_ex (\<lambda>includeActiveDtcs. includeActiveDtcs) conditions
          then m\<lparr>mShouldRequestDTCs := True\<rparr>
          else m\<lparr>mShouldRequestDTCs := False\<rparr>)"

text \<open>
  \<open>OBDOverCANModule::onChangeOfActiveDictionary\<close>. \<open>isOBD\<close> is the test of the network
  protocol; the dictionary is given by the PIDs of each of its channels, \<open>None\<close> when the
  cast to a CAN decoder dictionary gives the null pointer.
\<close>

definition onChangeOfActiveDictionary ::
  "nat list list option \<Rightarrow> bool \<Rightarrow> OBDOverCANModule \<Rightarrow> OBDOverCANModule" where
  "onChangeOfActiveDictionary dictionary isOBD m =
     (if \<not> isOBD then m
      else (let m1 = m\<lparr>mDecoderDictionary := []\<rparr>
            in case dictionary of
                 None \<Rightarrow> m1
               | Some canMessageDecoderMethod \<Rightarrow>
                   if length canMessageDecoderMethod \<noteq> 1 then m1
                   else (assignPIDsToECUs
                           (m1\<lparr>mDecoderDictionary := hd canMessageDecoderMethod\<rparr>))
                        \<lparr>mDecoderManifestAvailable := True\<rparr>))"

text \<open>
  What a turn of a loop of \<open>doWork\<close> meets: whether the wait on \<open>mDataAvailableWait\<close> has
  been notified, the inputs of the two calls of \<open>autoDetectECUs\<close>, the result of
  \<open>openISOTPBroadcastSocket\<close>, the result of \<open>OBDOverCANECU::init\<close> for each rx ID, and the
  reading of the clock in seconds.
\<close>

record worker_turn =
  dataAvailable :: bool
  setupOk11 :: bool
  events11 :: "rx_event list"
  closeOk11 :: bool
  setupOk29 :: bool
  events29 :: "rx_event list"
  closeOk29 :: bool
  openISOTPBroadcastSocket :: int
  ecuInitOk :: "uint32 \<Rightarrow> bool"
  clockSeconds :: nat

text \<open>
  The first loop of \<open>doWork\<close> once responses have been collected: the broadcast socket is
  opened in broadcast mode, and the ECUs are initialised. When the detection finishes, the
  two timers are reset and the thread enters the second loop.
\<close>

definition doWork_initECUs ::
  "bool \<Rightarrow> uint32 list \<Rightarrow> worker_turn \<Rightarrow> OBDOverCANModule \<Rightarrow> OBDOverCANModule" where
  "doWork_initECUs isExtendedID canIDResponses i m =
     (let m1 = (if mBroadcastRequests m
                then m\<lparr>mBroadcastSocket := openISOTPBroadcastSocket i\<rparr> else m)
      in if mBroadcastRequests m1 \<and> mBroadcastSocket m1 < 0
         then m1\<lparr>doWorkAt := Returned\<rparr>
         else
           (case initECUs isExtendedID (ecuInitOk i) canIDResponses (mECUs m1) of
              (ok, ecus) \<Rightarrow>
                if \<not> ok then m1\<lparr>mECUs := ecus, doWorkAt := Returned\<rparr>
                else m1\<lparr>mECUs := ecus, doWorkAt := AcquiringData False,
                        mDTCTimer := clockSeconds i, mPIDTimer := clockSeconds i\<rparr>))"

text \<open>
  One turn of the first loop of \<open>doWork\<close>. Without a decoder dictionary and without DTC
  requests the thread waits on \<open>mDataAvailableWait\<close>; a turn that is not notified stays
  there. The discovery broadcast is logged when \<open>autoDetectECUs\<close> has written the request;
  the 29-bit discovery runs when the 11-bit one collected nothing. A turn that collects
  nothing waits one second and the loop goes on.
\<close>

definition doWork_detect :: "worker_turn \<Rightarrow> OBDOverCANModule \<Rightarrow> OBDOverCANModule" where
  "doWork_detect i m =
     (if \<not> mShouldRequestDTCs m \<and> mDecoderDictionary m = [] \<and> \<not> dataAvailable i then m
      else
        (let r11 = autoDetectECUs False (setupOk11 i) (events11 i) (closeOk11 i) [];
             m1 = (if setupOk11 i
                   then m\<lparr>busRequests := busRequests m @ [BroadcastRequest False]\<rparr> else m)
         in if snd r11 \<noteq> [] then doWork_initECUs False (snd r11) i m1
            else
              (let r29 = autoDetectECUs True (setupOk29 i) (events29 i) (closeOk29 i) (snd r11);
                   m2 = (if setupOk29 i
                         then m1\<lparr>busRequests := busRequests m1 @ [BroadcastRequest True]\<rparr>
                         else m1)
               in if snd r29 \<noteq> [] then doWork_initECUs True (snd r29) i m2 else m2)))"

text \<open>
  One turn of the second loop of \<open>doWork\<close>, up to the wait for the next cycle. The DTC
  information pushed to the signal buffer is not recorded.
\<close>

definition doWork_acquire ::
  "worker_turn \<Rightarrow> bool \<Rightarrow> OBDOverCANModule \<Rightarrow> OBDOverCANModule" where
  "doWork_acquire i hasAcquiredSupportedPIDs m =
     (let m1 = (if mDecoderManifestAvailable m
                then m\<lparr>mDecoderManifestAvailable := False\<rparr> else m);
          m2 = (if 0 < mPIDRequestIntervalSeconds m1 \<and>
                   unat (mPIDRequestIntervalSeconds m1) \<le> clockSeconds i - mPIDTimer m1
                then (let m2a = m1\<lparr>mPIDTimer := clockSeconds i\<rparr>
                      in if mDecoderDictionary m2a \<noteq> []
                         then (let m2b = (if \<not> hasAcquiredSupportedPIDs
                                          then (assignPIDsToECUs
                                                  (m2a\<lparr>doWorkAt := AcquiringData True\<rparr>))
                                               \<lparr>mPIDTimer := clockSeconds i\<rparr>
                                          else m2a)
                               in m2b\<lparr>busRequests := busRequests m2b @
                                    map (\<lambda>ecu. RequestReceiveEmissionPIDs (fst ecu)) (mECUs m2b)\<rparr>)
                         else m2a)
                else m1);
          m3 = (if 0 < mDTCRequestIntervalSeconds m2 \<and>
                   unat (mDTCRequestIntervalSeconds m2) \<le> clockSeconds i - mDTCTimer m2
                then (let m3a = m2\<lparr>mDTCTimer := clockSeconds i\<rparr>
                      in if mShouldRequestDTCs m3a
                         then m3a\<lparr>busRequests := busRequests m3a @
                                map (\<lambda>ecu. GetDTCData (fst ecu)) (mECUs m3a)\<rparr>
                         else m3a)
                else m2)
      in m3)"

text \<open>A turn of \<open>doWork\<close>: there is one only while a thread runs \<open>doWork\<close>.\<close>

definition doWork_turn :: "worker_turn \<Rightarrow> OBDOverCANModule \<Rightarrow> OBDOverCANModule" where
  "doWork_turn i m =
     (case doWorkAt m of
        NoThread \<Rightarrow> m
      | DetectingECUs \<Rightarrow> doWork_detect i m
      | AcquiringData hasAcquiredSupportedPIDs \<Rightarrow> doWork_acquire i hasAcquiredSupportedPIDs m
      | Returned \<Rightarrow> m)"

text \<open>
  What happens to a module: a call of one of its member functions that write its state, or
  a turn of its worker thread. The destructor is \<open>stop\<close>; the remaining member functions
  (\<open>isAlive\<close>, \<open>getExternalPIDsToRequest\<close>, \<open>setExternalPIDResponse\<close>) write none of
  these fields and request nothing.
\<close>

datatype obd_event =
    Connect bool
  | Disconnect
  | ChangeInspectionMatrix "bool list option"
  | ChangeOfActiveDictionary "nat list list option" bool
  | WorkerTurn worker_turn

definition obd_step :: "obd_event \<Rightarrow> OBDOverCANModule \<Rightarrow> OBDOverCANModule" where
  "obd_step e m =
     (case e of
        Connect created \<Rightarrow> snd (connect created m)
      | Disconnect \<Rightarrow> snd (disconnect m)
      | ChangeInspectionMatrix inspectionMatrix \<Rightarrow> onChangeInspectionMatrix inspectionMatrix m
      | ChangeOfActiveDictionary dictionary isOBD \<Rightarrow> onChangeOfActiveDictionary dictionary isOBD m
      | WorkerTurn i \<Rightarrow> doWork_turn i m)"

section \<open>Policy Manager (CollectionSchemeManager.cpp)\<close>

type_synonym SyncID = string
type_synonym Timestamp = "64 word"

text \<open>
  A collection scheme as the manager reads it: its ID, the ID of the decoder manifest it was
  written for, its start and expiry time. The other members (condition tree, signals, ...)
  are one opaque value; \<open>operator!=\<close> on schemes, declared in ICollectionScheme.h outside
  the modelled sources, is comparison by value.
\<close>

record ICollectionScheme =
  getCollectionSchemeID :: SyncID
  getDecoderManifestID :: SyncID
  getStartTime :: Timestamp
  getExpiryTime :: Timestamp
  getPayload :: nat

text \<open>A decoder manifest: whether \<open>build()\<close> succeeds, and its ID.\<close>

record IDecoderManifest =
  buildManifest :: bool
  getID :: SyncID

text \<open>A collection scheme list: whether \<open>build()\<close> succeeds, and its schemes.\<close>

record ICollectionSchemeList =
  buildList :: bool
  getCollectionSchemes :: "ICollectionScheme list"

datatype DataType = COLLECTION_SCHEME_LIST | DECODER_MANIFEST | STATE_TEMPLATE_LIST

text \<open>
  The scheme maps are association lists read with \<open>map_of\<close>: \<open>find\<close> is \<open>map_of\<close>,
  \<open>m[id] = v\<close> is \<open>AList.update\<close>, \<open>erase\<close> is \<open>AList.delete\<close>. A loop over a map
  is a loop over the list; the order of the entries is not the map's order, and no property
  below depends on it.
\<close>

type_synonym scheme_map = "(SyncID \<times> ICollectionScheme) list"

text \<open>
  Modelled from the spec: a Timeline entry is the pair \<open>(wall_time_ms, scheme_id)\<close>.
  \<open>TimeData\<close>, its ordering and \<open>timePointFromSystemTime\<close> are declared in headers outside
  the modelled sources; the manager reads only \<open>time.systemTimeMs\<close> and \<open>id\<close> of an entry.
  The priority queue is the list of its entries in the order in which \<open>top\<close> and \<open>pop\<close>
  deliver them: \<open>top\<close> is the head, \<open>pop\<close> the tail, \<open>push\<close> inserts by time. The
  properties of \<open>checkTimeLine\<close> below hold for every list, so for every order among equal
  times.
\<close>

type_synonym TimeData = "Timestamp \<times> SyncID"

definition timeLine_push :: "TimeData \<Rightarrow> TimeData list \<Rightarrow> TimeData list" where
  "timeLine_push e q = insort_key fst e q"

text \<open>
  The members of the manager. \<open>mDecoderManifest\<close> and \<open>mCollectionSchemeList\<close> are
  shared pointers, \<open>None\<close> for \<open>nullptr\<close>. The last five fields record what the manager
  hands to its collaborators: the documents given to \<open>store\<close>, the error counter of the trace
  module, and the arguments of the listener notifications, latest first.
\<close>

record CollectionSchemeManager =
  mEnabledCollectionSchemeMap :: scheme_map
  mIdleCollectionSchemeMap :: scheme_map
  mTimeLine :: "TimeData list"
  mCurrentDecoderManifestID :: SyncID
  mDecoderManifest :: "IDecoderManifest option"
  mCollectionSchemeList :: "ICollectionSchemeList option"
  mProcessDecoderManifest :: bool
  mProcessCollectionScheme :: bool
  storedDecoderManifest :: "IDecoderManifest option"
  storedCollectionSchemeList :: "ICollectionSchemeList option"
  collectionSchemeErrors :: nat
  customSignalDecoderNotified :: "SyncID list"
  activeCollectionSchemesNotified :: "ICollectionScheme list list"
  checkinDocumentsNotified :: "SyncID list list"

text \<open>
  Modelled from the spec: \<open>store\<close> is defined outside the modelled sources; it hands the
  current manifest or scheme list to the persistence layer.
\<close>

definition store :: "DataType \<Rightarrow> CollectionSchemeManager \<Rightarrow> CollectionSchemeManager" where
  "store t s =
     (case t of
        DECODER_MANIFEST \<Rightarrow> s\<lparr>storedDecoderManifest := mDecoderManifest s\<rparr>
      | COLLECTION_SCHEME_LIST \<Rightarrow> s\<lparr>storedCollectionSchemeList := mCollectionSchemeList s\<rparr>
      | STATE_TEMPLATE_LIST \<Rightarrow> s)"

subsection \<open>updateCheckinDocuments\<close>

text \<open>The local vector \<open>checkinMsg\<close> (built without the last-known-state feature).\<close>

definition checkinMsg :: "CollectionSchemeManager \<Rightarrow> SyncID list" where
  "checkinMsg s =
     map fst (mEnabledCollectionSchemeMap s) @ map fst (mIdleCollectionSchemeMap s) @
     (if mCurrentDecoderManifestID s \<noteq> [] then [mCurrentDecoderManifestID s] else [])"

definition updateCheckinDocuments :: "CollectionSchemeManager \<Rightarrow> CollectionSchemeManager" where
  "updateCheckinDocuments s =
     s\<lparr>checkinDocumentsNotified := checkinMsg s # checkinDocumentsNotified s\<rparr>"

text \<open>
  The checkin as the specification words it: the IDs of the Enabled schemes, of the Idle
  schemes, and the current manifest ID.
\<close>

definition checkin_spec :: "CollectionSchemeManager \<Rightarrow> SyncID set" where
  "checkin_spec s =
     fst ` set (mEnabledCollectionSchemeMap s) \<union> fst ` set (mIdleCollectionSchemeMap s) \<union>
     {mCurrentDecoderManifestID s}"

subsection \<open>processDecoderManifest\<close>

definition processDecoderManifest ::
  "CollectionSchemeManager \<Rightarrow> bool \<times> CollectionSchemeManager" where
  "processDecoderManifest s =
     (case mDecoderManifest s of
        None \<Rightarrow> (False, s\<lparr>collectionSchemeErrors := collectionSchemeErrors s + 1\<rparr>)
      | Some dm \<Rightarrow>
          if \<not> buildManifest dm
          then (False, s\<lparr>collectionSchemeErrors := collectionSchemeErrors s + 1\<rparr>)
          else if getID dm = mCurrentDecoderManifestID s then (False, s)
          else (let s1 = s\<lparr>mCurrentDecoderManifestID := getID dm\<rparr>;
                    s2 = store DECODER_MANIFEST s1
                in (True, s2\<lparr>customSignalDecoderNotified :=
                                mCurrentDecoderManifestID s2 # customSignalDecoderNotified s2\<rparr>)))"

subsection \<open>isCollectionSchemesInSyncWithDm, updateActiveCollectionSchemeListeners\<close>

definition isCollectionSchemesInSyncWithDm :: "CollectionSchemeManager \<Rightarrow> bool" where
  "isCollectionSchemesInSyncWithDm s \<longleftrightarrow>
     list_all (\<lambda>collectionScheme.
         getDecoderManifestID (snd collectionScheme) = mCurrentDecoderManifestID s)
       (mEnabledCollectionSchemeMap s) \<and>
     list_all (\<lambda>collectionScheme.
         getDecoderManifestID (snd collectionScheme) = mCurrentDecoderManifestID s)
       (mIdleCollectionSchemeMap s)"

text \<open>The vector \<open>activeCollectionSchemesOutput->activeCollectionSchemes\<close>.\<close>

definition activeCollectionSchemes :: "CollectionSchemeManager \<Rightarrow> ICollectionScheme list" where
  "activeCollectionSchemes s =
     (if isCollectionSchemesInSyncWithDm s then map snd (mEnabledCollectionSchemeMap s) else [])"

definition updateActiveCollectionSchemeListeners ::
  "CollectionSchemeManager \<Rightarrow> CollectionSchemeManager" where
  "updateActiveCollectionSchemeListeners s =
     s\<lparr>activeCollectionSchemesNotified :=
         activeCollectionSchemes s # activeCollectionSchemesNotified s\<rparr>"

text \<open>
  The published set as the specification words it: each Enabled scheme whose manifest ID is
  the current one, and no other.
\<close>

definition activeCollectionSchemes_spec :: "CollectionSchemeManager \<Rightarrow> ICollectionScheme list" where
  "activeCollectionSchemes_spec s =
     filter (\<lambda>cs. getDecoderManifestID cs = mCurrentDecoderManifestID s)
       (map snd (mEnabledCollectionSchemeMap s))"

subsection \<open>rebuildMapsandTimeLine\<close>

text \<open>One turn of the loop over the scheme list; \<open>ret\<close> travels with the manager.\<close>

definition rebuildStep ::
  "Timestamp \<Rightarrow> ICollectionScheme \<Rightarrow> bool \<times> CollectionSchemeManager \<Rightarrow>
   bool \<times> CollectionSchemeManager" where
  "rebuildStep currTime collectionScheme acc =
     (let ret = fst acc; s = snd acc;
          startTime = getStartTime collectionScheme;
          stopTime = getExpiryTime collectionScheme;
          id' = getCollectionSchemeID collectionScheme
      in if startTime > currTime
         then (ret, s\<lparr>mIdleCollectionSchemeMap :=
                         AList.update id' collectionScheme (mIdleCollectionSchemeMap s),
                       mTimeLine := timeLine_push (stopTime, id')
                                      (timeLine_push (startTime, id') (mTimeLine s))\<rparr>)
         else if stopTime > currTime
         then (True, s\<lparr>mEnabledCollectionSchemeMap :=
                          AList.update id' collectionScheme (mEnabledCollectionSchemeMap s),
                        mTimeLine := timeLine_push (stopTime, id') (mTimeLine s)\<rparr>)
         else (ret, s))"

definition rebuildMapsandTimeLine ::
  "Timestamp \<Rightarrow> CollectionSchemeManager \<Rightarrow> bool \<times> CollectionSchemeManager" where
  "rebuildMapsandTimeLine currTime s =
     (case mCollectionSchemeList s of
        None \<Rightarrow> (False, s)
      | Some l \<Rightarrow> fold (rebuildStep currTime) (getCollectionSchemes l) (False, s))"

subsection \<open>updateMapsandTimeLine\<close>

text \<open>
  One turn of the loop over the new scheme list. \<open>currCollectionScheme\<close> is the scheme the
  map held when the turn began.
\<close>

definition updateStep ::
  "Timestamp \<Rightarrow> ICollectionScheme \<Rightarrow> bool \<times> CollectionSchemeManager \<Rightarrow>
   bool \<times> CollectionSchemeManager" where
  "updateStep currTime collectionScheme acc =
     (let ret = fst acc; s = snd acc;
          startTime = getStartTime collectionScheme;
          stopTime = getExpiryTime collectionScheme;
          id' = getCollectionSchemeID collectionScheme
      in case map_of (mEnabledCollectionSchemeMap s) id' of
           Some currCollectionScheme \<Rightarrow>
             if stopTime \<le> currTime
             then (True, s\<lparr>mEnabledCollectionSchemeMap :=
                              AList.delete id' (mEnabledCollectionSchemeMap s)\<rparr>)
             else
               (let s1 = (if stopTime \<noteq> getExpiryTime currCollectionScheme
                          then s\<lparr>mEnabledCollectionSchemeMap :=
                                    AList.update id' collectionScheme (mEnabledCollectionSchemeMap s),
                                  mTimeLine := timeLine_push (stopTime, id') (mTimeLine s)\<rparr>
                          else s)
                in if collectionScheme \<noteq> currCollectionScheme
                   then (True, s1\<lparr>mEnabledCollectionSchemeMap :=
                                     AList.update id' collectionScheme
                                       (mEnabledCollectionSchemeMap s1)\<rparr>)
                   else (ret, s1))
         | None \<Rightarrow>
             (case map_of (mIdleCollectionSchemeMap s) id' of
                Some currCollectionScheme \<Rightarrow>
                  if startTime \<le> currTime \<and> stopTime > currTime
                  then (True, s\<lparr>mIdleCollectionSchemeMap :=
                                   AList.delete id' (mIdleCollectionSchemeMap s),
                                 mEnabledCollectionSchemeMap :=
                                   AList.update id' collectionScheme (mEnabledCollectionSchemeMap s),
                                 mTimeLine := timeLine_push (stopTime, id') (mTimeLine s)\<rparr>)
                  else if startTime > currTime \<and>
                          (startTime \<noteq> getStartTime currCollectionScheme \<or>
                           stopTime \<noteq> getExpiryTime currCollectionScheme)
                  then (ret, s\<lparr>mIdleCollectionSchemeMap :=
                                  AList.update id' collectionScheme (mIdleCollectionSchemeMap s),
                                mTimeLine := timeLine_push (stopTime, id')
                                               (timeLine_push (startTime, id') (mTimeLine s))\<rparr>)
                  else (ret, s\<lparr>mIdleCollectionSchemeMap :=
                                  AList.update id' collectionScheme (mIdleCollectionSchemeMap s)\<rparr>)
              | None \<Rightarrow>
                  if startTime \<le> currTime \<and> stopTime > currTime
                  then (True, s\<lparr>mEnabledCollectionSchemeMap :=
                                   AList.update id' collectionScheme (mEnabledCollectionSchemeMap s),
                                 mTimeLine := timeLine_push (stopTime, id') (mTimeLine s)\<rparr>)
                  else if startTime > currTime
                  then (ret, s\<lparr>mIdleCollectionSchemeMap :=
                                  AList.update id' collectionScheme (mIdleCollectionSchemeMap s),
                                mTimeLine := timeLine_push (stopTime, id')
                                               (timeLine_push (startTime, id') (mTimeLine s))\<rparr>)
                  else (ret, s)))"

text \<open>
  After the loop, the Idle and then the Enabled schemes whose ID is missing from the new list
  are erased; erasing an Enabled scheme sets \<open>ret\<close>.
\<close>

definition updateMapsandTimeLine ::
  "Timestamp \<Rightarrow> CollectionSchemeManager \<Rightarrow> bool \<times> CollectionSchemeManager" where
  "updateMapsandTimeLine currTime s =
     (case mCollectionSchemeList s of
        None \<Rightarrow> (False, s)
      | Some l \<Rightarrow>
          (let collectionSchemeList = getCollectionSchemes l;
               newCollectionSchemeIDs = map getCollectionSchemeID collectionSchemeList;
               acc = fold (updateStep currTime) collectionSchemeList (False, s);
               s1 = snd acc;
               s2 = s1\<lparr>mIdleCollectionSchemeMap :=
                         filter (\<lambda>it. fst it \<in> set newCollectionSchemeIDs)
                           (mIdleCollectionSchemeMap s1)\<rparr>;
               erased = (\<not> list_all (\<lambda>it. fst it \<in> set newCollectionSchemeIDs)
                                (mEnabledCollectionSchemeMap s2));
               s3 = s2\<lparr>mEnabledCollectionSchemeMap :=
                         filter (\<lambda>it. fst it \<in> set newCollectionSchemeIDs)
                           (mEnabledCollectionSchemeMap s2)\<rparr>
           in (fst acc \<or> erased, s3)))"

subsection \<open>processCollectionScheme\<close>

definition isCollectionSchemeLoaded :: "CollectionSchemeManager \<Rightarrow> bool" where
  "isCollectionSchemeLoaded s \<longleftrightarrow>
     mEnabledCollectionSchemeMap s \<noteq> [] \<or> mIdleCollectionSchemeMap s \<noteq> []"

text \<open>\<open>currTime\<close> is the reading of \<open>mClock->timeSinceEpoch()\<close>.\<close>

definition processCollectionScheme ::
  "Timestamp \<Rightarrow> CollectionSchemeManager \<Rightarrow> bool \<times> CollectionSchemeManager" where
  "processCollectionScheme currTime s =
     (case mCollectionSchemeList s of
        None \<Rightarrow> (False, s\<lparr>collectionSchemeErrors := collectionSchemeErrors s + 1\<rparr>)
      | Some l \<Rightarrow>
          if \<not> buildList l
          then (False, s\<lparr>collectionSchemeErrors := collectionSchemeErrors s + 1\<rparr>)
          else (let s1 = store COLLECTION_SCHEME_LIST s
                in if isCollectionSchemeLoaded s1
                   then updateMapsandTimeLine currTime s1
                   else rebuildMapsandTimeLine currTime s1))"

subsection \<open>checkTimeLine\<close>

text \<open>
  The body of the while loop for the entry on top of the Timeline. \<open>None\<close> is the
  \<open>break\<close>: the entry is valid and lies in the future, it stays on the heap. \<open>Some (flip, s')\<close>
  is a turn that ends with \<open>mTimeLine.pop()\<close>; \<open>flip\<close> tells that \<open>ret\<close> was set.
\<close>

definition checkTimeLine_examine ::
  "Timestamp \<Rightarrow> TimeData \<Rightarrow> bool \<Rightarrow> ICollectionScheme \<Rightarrow> CollectionSchemeManager \<Rightarrow>
   (bool \<times> CollectionSchemeManager) option" where
  "checkTimeLine_examine currTime topPair foundInEnabled currCollectionScheme s =
     (let topCollectionSchemeID = snd topPair; topTime = fst topPair;
          timeOfInterest = (if foundInEnabled then getExpiryTime currCollectionScheme
                            else getStartTime currCollectionScheme)
      in if timeOfInterest \<noteq> topTime then Some (False, s)
         else if topTime \<le> currTime
         then (if \<not> foundInEnabled
               then Some (True, s\<lparr>mEnabledCollectionSchemeMap :=
                                     AList.update topCollectionSchemeID currCollectionScheme
                                       (mEnabledCollectionSchemeMap s),
                                   mIdleCollectionSchemeMap :=
                                     AList.delete topCollectionSchemeID
                                       (mIdleCollectionSchemeMap s)\<rparr>)
               else Some (True, s\<lparr>mEnabledCollectionSchemeMap :=
                                     AList.delete topCollectionSchemeID
                                       (mEnabledCollectionSchemeMap s)\<rparr>))
         else None)"

definition checkTimeLine_body ::
  "Timestamp \<Rightarrow> TimeData \<Rightarrow> CollectionSchemeManager \<Rightarrow>
   (bool \<times> CollectionSchemeManager) option" where
  "checkTimeLine_body currTime topPair s =
     (case map_of (mEnabledCollectionSchemeMap s) (snd topPair) of
        Some currCollectionScheme \<Rightarrow>
          checkTimeLine_examine currTime topPair True currCollectionScheme s
      | None \<Rightarrow>
          (case map_of (mIdleCollectionSchemeMap s) (snd topPair) of
             None \<Rightarrow> Some (False, s)
           | Some currCollectionScheme \<Rightarrow>
               checkTimeLine_examine currTime topPair False currCollectionScheme s))"

text \<open>
  The while loop. The heap is passed on its own while the loop runs and written back to
  \<open>mTimeLine\<close> when the loop ends, on the empty heap or on \<open>break\<close>.
\<close>

fun checkTimeLine_loop ::
  "Timestamp \<Rightarrow> TimeData list \<Rightarrow> bool \<times> CollectionSchemeManager \<Rightarrow>
   bool \<times> CollectionSchemeManager" where
  "checkTimeLine_loop currTime [] acc = (fst acc, (snd acc)\<lparr>mTimeLine := []\<rparr>)"
| "checkTimeLine_loop currTime (topPair # rest) acc =
     (case checkTimeLine_body currTime topPair (snd acc) of
        None \<Rightarrow> (fst acc, (snd acc)\<lparr>mTimeLine := topPair # rest\<rparr>)
      | Some (flip, s') \<Rightarrow> checkTimeLine_loop currTime rest (fst acc \<or> flip, s'))"

definition checkTimeLine ::
  "Timestamp \<Rightarrow> CollectionSchemeManager \<Rightarrow> bool \<times> CollectionSchemeManager" where
  "checkTimeLine currTime s =
     (case mTimeLine s of
        [] \<Rightarrow> (False, s)
      | topPair # rest \<Rightarrow>
          if currTime < fst topPair then (False, s)
          else checkTimeLine_loop currTime (mTimeLine s) (False, s))"

text \<open>
  The turns of the while loop that end with a pop, in order: the popped entry, the manager
  when the entry was on top, and the manager after the turn.
\<close>

fun checkTimeLine_pops ::
  "Timestamp \<Rightarrow> TimeData list \<Rightarrow> CollectionSchemeManager \<Rightarrow>
   (TimeData \<times> CollectionSchemeManager \<times> CollectionSchemeManager) list" where
  "checkTimeLine_pops currTime [] s = []"
| "checkTimeLine_pops currTime (topPair # rest) s =
     (case checkTimeLine_body currTime topPair s of
        None \<Rightarrow> []
      | Some (flip, s') \<Rightarrow> (topPair, s, s') # checkTimeLine_pops currTime rest s')"

subsection \<open>One pass of doWork\<close>

text \<open>
  One turn of the loop of \<open>doWork\<close> up to the notification of the listeners (built without
  the last-known-state feature). \<open>t1\<close> and \<open>checkTime\<close> are the two readings of the clock.
  The result is \<open>decoderManifestChanged\<close>, \<open>enabledCollectionSchemeMapChanged\<close> and the
  manager.
\<close>

definition doWork_pass ::
  "Timestamp \<Rightarrow> Timestamp \<Rightarrow> bool \<Rightarrow> CollectionSchemeManager \<Rightarrow>
   bool \<times> bool \<times> CollectionSchemeManager" where
  "doWork_pass t1 checkTime initialCheckinDocumentsUpdate s =
     (let r1 = (if mProcessDecoderManifest s
                then processDecoderManifest (s\<lparr>mProcessDecoderManifest := False\<rparr>)
                else (False, s));
          decoderManifestChanged = fst r1;
          r2 = (if mProcessCollectionScheme (snd r1)
                then processCollectionScheme t1 ((snd r1)\<lparr>mProcessCollectionScheme := False\<rparr>)
                else (False, snd r1));
          r3 = checkTimeLine checkTime (snd r2);
          enabledCollectionSchemeMapChanged = (fst r2 \<or> fst r3);
          documentsChanged = (decoderManifestChanged \<or> enabledCollectionSchemeMapChanged);
          s4 = (if documentsChanged \<or> initialCheckinDocumentsUpdate
                then updateCheckinDocuments (snd r3) else snd r3);
          s5 = (if documentsChanged then updateActiveCollectionSchemeListeners s4 else s4)
      in (decoderManifestChanged, enabledCollectionSchemeMapChanged, s5))"


section \<open>CAN raw frame reader (CANDataSource::doWork)\<close>

text \<open>
  Modelled from the spec: \<open>PARALLEL_RECEIVED_FRAMES_FROM_KERNEL\<close> is declared in
  CANDataSource.h, outside the modelled sources; the specification gives the batch size
  \<open>B = 10\<close>.
\<close>

definition PARALLEL_RECEIVED_FRAMES_FROM_KERNEL :: nat where
  "PARALLEL_RECEIVED_FRAMES_FROM_KERNEL = 10"

text \<open>A received message: the frame's \<open>can_id\<close>, its payload, and the timestamp that
  \<open>extractTimestamp\<close> returns for it.\<close>

record can_message =
  can_id :: uint32
  frame_data :: "8 word list"
  timestamp :: Timestamp

text \<open>
  What one turn of the loop meets: whether \<open>mDecoderDictionary\<close> is null when the turn
  begins, and the result of \<open>recvmmsg\<close> (\<open>None\<close> for -1, otherwise the messages read, at
  most \<open>PARALLEL_RECEIVED_FRAMES_FROM_KERNEL\<close> of them).
\<close>

record can_turn =
  decoderDictionaryNull :: bool
  recvmmsg :: "can_message list option"

text \<open>
  The locals of \<open>doWork\<close> and the members it writes; \<open>processMessage\<close> lists the messages
  handed to the consumer, oldest first.
\<close>

record CANDataSource =
  lastFrameTime :: Timestamp
  wokeUpFromSleep :: bool
  mReceivedMessages :: "64 word"
  notTimeMonotonicFrames :: nat
  processMessage :: "can_message list"

definition nmsgs :: "can_turn \<Rightarrow> int" where
  "nmsgs t = (case recvmmsg t of None \<Rightarrow> - 1
              | Some ms \<Rightarrow> int (length (take PARALLEL_RECEIVED_FRAMES_FROM_KERNEL ms)))"

definition msg :: "can_turn \<Rightarrow> can_message list" where
  "msg t = (case recvmmsg t of None \<Rightarrow> []
            | Some ms \<Rightarrow> take PARALLEL_RECEIVED_FRAMES_FROM_KERNEL ms)"

text \<open>The body of the for loop over the messages of a batch.\<close>

definition handleFrame :: "can_message \<Rightarrow> CANDataSource \<Rightarrow> CANDataSource" where
  "handleFrame m c =
     (if \<not> wokeUpFromSleep c
      then c\<lparr>notTimeMonotonicFrames :=
                (if timestamp m < lastFrameTime c then notTimeMonotonicFrames c + 1
                 else notTimeMonotonicFrames c),
              lastFrameTime := timestamp m,
              mReceivedMessages := mReceivedMessages c + 1,
              processMessage := processMessage c @ [m]\<rparr>
      else c)"

text \<open>One turn of the while loop of \<open>CANDataSource::doWork\<close>.\<close>

definition canDoWork_turn :: "can_turn \<Rightarrow> CANDataSource \<Rightarrow> CANDataSource" where
  "canDoWork_turn t c =
     (let c1 = (if decoderDictionaryNull t then c\<lparr>wokeUpFromSleep := True\<rparr> else c);
          c2 = fold handleFrame (msg t) c1
      in if nmsgs t < int PARALLEL_RECEIVED_FRAMES_FROM_KERNEL
         then c2\<lparr>wokeUpFromSleep := False\<rparr>
         else c2)"

text \<open>The reader when \<open>doWork\<close> begins.\<close>

definition readerStart :: CANDataSource where
  "readerStart = \<lparr>lastFrameTime = 0, wokeUpFromSleep = False, mReceivedMessages = 0,
      notTimeMonotonicFrames = 0, processMessage = []\<rparr>"

section \<open>Sender worker (DataSenderManagerWorkerThread::doWork)\<close>

text \<open>
  The member and the local of \<open>doWork\<close> that decide the retry, the instant of the last
  \<open>reset\<close> of \<open>mRetrySendingPersistedDataTimer\<close>, the payloads handed to \<open>processData\<close>
  and the number of calls of \<open>checkAndSendRetrievedData\<close>.
\<close>

record DataSenderManagerWorkerThread =
  mPersistencyUploadRetryIntervalMs :: "64 word"
  uploadedPersistedDataOnce :: bool
  mRetrySendingPersistedDataTimer :: "64 word"
  processData :: "nat list"
  checkAndSendRetrievedData :: nat

text \<open>
  What one turn of the loop meets after its wait: the monotonic clock, the payloads in the
  queues, and the answer of \<open>mConnectivityModule.isAlive()\<close>.
\<close>

record sender_turn =
  clockMs :: "64 word"
  queued :: "nat list"
  isAlive :: bool

definition getElapsedMs :: "sender_turn \<Rightarrow> DataSenderManagerWorkerThread \<Rightarrow> 64 word" where
  "getElapsedMs t w = clockMs t - mRetrySendingPersistedDataTimer w"

text \<open>The wait computed at the top of the loop; \<open>None\<close> is the wait without timeout.\<close>

definition minTimeToWaitMs :: "sender_turn \<Rightarrow> DataSenderManagerWorkerThread \<Rightarrow> 64 word option" where
  "minTimeToWaitMs t w =
     (if mPersistencyUploadRetryIntervalMs w > 0
      then (let timeToWaitMs = mPersistencyUploadRetryIntervalMs w -
                                 min (getElapsedMs t w) (mPersistencyUploadRetryIntervalMs w)
            in if timeToWaitMs < - 1 then Some timeToWaitMs else None)
      else None)"



section \<open>Notions used to state the properties\<close>

text \<open>
  The CAN IDs of the frames that the receive loop of \<open>autoDetectECUs\<close> reads: those received
  before the first turn that ends the loop (stop request, elapsed timer, poll error or
  timeout, receive error).
\<close>

fun framesRead :: "rx_event list \<Rightarrow> uint32 list" where
  "framesRead (Received c # es) = c # framesRead es"
| "framesRead es = []"

text \<open>What the manager holds about the decoder manifest.\<close>

definition manifestPart ::
  "CollectionSchemeManager \<Rightarrow> SyncID \<times> IDecoderManifest option \<times> IDecoderManifest option" where
  "manifestPart s = (mCurrentDecoderManifestID s, mDecoderManifest s, storedDecoderManifest s)"

text \<open>What the manager has notified to its listeners.\<close>

definition notifiedPart ::
  "CollectionSchemeManager \<Rightarrow> SyncID list list \<times> ICollectionScheme list list" where
  "notifiedPart s = (checkinDocumentsNotified s, activeCollectionSchemesNotified s)"

text \<open>The two tests of the rebuild loop, on the current time \<open>t\<close>.\<close>

definition startsIdle :: "Timestamp \<Rightarrow> ICollectionScheme \<Rightarrow> bool" where
  "startsIdle t cs \<longleftrightarrow> t < getStartTime cs"

definition startsEnabled :: "Timestamp \<Rightarrow> ICollectionScheme \<Rightarrow> bool" where
  "startsEnabled t cs \<longleftrightarrow> getStartTime cs \<le> t \<and> t < getExpiryTime cs"

text \<open>
  \<open>checkTimeLine\<close> returns at once when the heap is empty or its top lies in the future;
  otherwise the popped turns are those of the loop.
\<close>

definition checkTimeLine_trace ::
  "Timestamp \<Rightarrow> CollectionSchemeManager \<Rightarrow>
   (TimeData \<times> CollectionSchemeManager \<times> CollectionSchemeManager) list" where
  "checkTimeLine_trace currTime s =
     (case mTimeLine s of
        [] \<Rightarrow> []
      | topPair # rest \<Rightarrow>
          if currTime < fst topPair then []
          else checkTimeLine_pops currTime (mTimeLine s) s)"

text \<open>The manager after the last popped entry.\<close>

definition afterPops ::
  "CollectionSchemeManager \<Rightarrow>
   (TimeData \<times> CollectionSchemeManager \<times> CollectionSchemeManager) list \<Rightarrow> CollectionSchemeManager" where
  "afterPops s ps = (if ps = [] then s else snd (snd (last ps)))"

text \<open>
  An entry matches the manager when its time is the expiry time of the scheme that the
  Enabled map holds for its ID or, if the Enabled map holds none, the start time of the scheme
  that the Idle map holds for it. This is the comparison of \<open>timeOfInterest\<close> with
  \<open>topTime\<close>.
\<close>

definition entryMatches :: "TimeData \<Rightarrow> CollectionSchemeManager \<Rightarrow> bool" where
  "entryMatches topPair s \<longleftrightarrow>
     (case map_of (mEnabledCollectionSchemeMap s) (snd topPair) of
        Some cs \<Rightarrow> fst topPair = getExpiryTime cs
      | None \<Rightarrow>
          (case map_of (mIdleCollectionSchemeMap s) (snd topPair) of
             Some cs \<Rightarrow> fst topPair = getStartTime cs
           | None \<Rightarrow> False))"






section \<open>Example data\<close>

text \<open>A scheme with the given ID, manifest ID, start and expiry time.\<close>

definition scheme :: "SyncID \<Rightarrow> SyncID \<Rightarrow> Timestamp \<Rightarrow> Timestamp \<Rightarrow> ICollectionScheme" where
  "scheme i dm startMs expiryMs =
     \<lparr>getCollectionSchemeID = i, getDecoderManifestID = dm, getStartTime = startMs,
      getExpiryTime = expiryMs, getPayload = 0\<rparr>"

text \<open>
  A manager with the given Enabled map, Idle map, Timeline, current manifest ID, manifest
  pointer and scheme list pointer, and nothing handed to its collaborators yet.
\<close>

definition manager ::
  "scheme_map \<Rightarrow> scheme_map \<Rightarrow> TimeData list \<Rightarrow> SyncID \<Rightarrow> IDecoderManifest option \<Rightarrow>
   ICollectionSchemeList option \<Rightarrow> CollectionSchemeManager" where
  "manager en idl q dm pendingDm pendingList =
     \<lparr>mEnabledCollectionSchemeMap = en, mIdleCollectionSchemeMap = idl, mTimeLine = q,
      mCurrentDecoderManifestID = dm, mDecoderManifest = pendingDm,
      mCollectionSchemeList = pendingList, mProcessDecoderManifest = False,
      mProcessCollectionScheme = False, storedDecoderManifest = None,
      storedCollectionSchemeList = None, collectionSchemeErrors = 0,
      customSignalDecoderNotified = [], activeCollectionSchemesNotified = [],
      checkinDocumentsNotified = []\<rparr>"

text \<open>A list of three schemes, for the examples.\<close>

definition exampleList :: ICollectionSchemeList where
  "exampleList = \<lparr>buildList = True, getCollectionSchemes =
      [scheme ''P1'' ''DM1'' 1000 5000, scheme ''P2'' ''DM1'' 4000 9000,
       scheme ''P3'' ''DM1'' 100 2000]\<rparr>"

text \<open>A list in which the ID P1 is repeated, for the examples.\<close>

definition repeatedList :: ICollectionSchemeList where
  "repeatedList = \<lparr>buildList = True, getCollectionSchemes =
      [scheme ''P1'' ''DM1'' 1000 5000, scheme ''P1'' ''DM1'' 4000 9000,
       scheme ''P1'' ''DM1'' 100 2000]\<rparr>"

text \<open>
  A manager with P1 enabled until 3000, P2 idle from 4000 to 9000, and a Timeline that also
  holds an obsolete start entry of P2 and an obsolete expiry entry of P1.
\<close>

definition exampleManager :: CollectionSchemeManager where
  "exampleManager =
     manager [(''P1'', scheme ''P1'' ''DM1'' 1000 3000)]
       [(''P2'', scheme ''P2'' ''DM1'' 4000 9000)]
       [(2500, ''P2''), (3000, ''P1''), (4000, ''P2''), (5000, ''P1''), (9000, ''P2'')]
       ''DM1'' None None"


text \<open>
  A module with the given request intervals that has not been connected: no thread, no ECU,
  no decoder dictionary, nothing requested.
\<close>

definition exampleModule :: "uint32 \<Rightarrow> uint32 \<Rightarrow> OBDOverCANModule" where
  "exampleModule pidRequestIntervalSeconds dtcRequestIntervalSeconds =
     \<lparr>mPIDRequestIntervalSeconds = pidRequestIntervalSeconds,
      mDTCRequestIntervalSeconds = dtcRequestIntervalSeconds,
      mBroadcastRequests = False, mShouldStop = False, mDecoderManifestAvailable = False,
      mShouldRequestDTCs = False, mThreadValid = False, mThreadActive = False,
      doWorkAt = NoThread, mDecoderDictionary = [], mECUs = [], mBroadcastSocket = - 1,
      mPIDTimer = 0, mDTCTimer = 0, busRequests = []\<rparr>"

text \<open>
  A turn of the worker at clock reading \<open>t\<close> in which the 11-bit discovery receives the
  frames \<open>cs\<close> and every socket operation succeeds.
\<close>

definition exampleTurn :: "nat \<Rightarrow> uint32 list \<Rightarrow> worker_turn" where
  "exampleTurn t cs =
     \<lparr>dataAvailable = True, setupOk11 = True, events11 = map Received cs, closeOk11 = True,
      setupOk29 = True, events29 = [], closeOk29 = True, openISOTPBroadcastSocket = 3,
      ecuInitOk = (\<lambda>rx. True), clockSeconds = t\<rparr>"

text \<open>A frame with timestamp \<open>ts\<close>.\<close>

definition exampleMessage :: "Timestamp \<Rightarrow> can_message" where
  "exampleMessage ts = \<lparr>can_id = 0x100, frame_data = [0x2A], timestamp = ts\<rparr>"

section \<open>Properties of the OBD module\<close>

lemma autoDetectECUs_loop_valid:
  "rx \<in> set (snd (autoDetectECUs_loop ext es acc)) \<Longrightarrow>
   rx \<in> set acc \<or> (\<exists>c. Received c \<in> set es \<and> isValidCANId ext c \<and> rx = frameCANId ext c)"
  by (induction ext es acc rule: autoDetectECUs_loop.induct) (auto split: if_splits)

lemma initECUs_loop_pairs:
  "(rx, tx) \<in> set (snd (initECUs_loop ext ok rs ecus)) \<Longrightarrow>
   (rx, tx) \<in> set ecus \<or> (rx \<in> set rs \<and> tx = getTxIDByRxID ext rx)"
  by (induction ext ok rs ecus rule: initECUs_loop.induct) (auto split: if_splits)

lemma isValidCANId_ranges:
  "isValidCANId ext c \<longleftrightarrow>
     (if ext then 0x18DAF100 \<le> (c AND 0x1FFFFFFF) \<and> (c AND 0x1FFFFFFF) \<le> 0x18DAF1FF
      else 0x7E8 \<le> c \<and> c \<le> 0x7EF)"
  by (simp add: isValidCANId_def frameCANId_def smallestCANId_def biggestCANId_def
      CAN_EFF_MASK_def LOWEST_ECU_RX_ID_def HIGHEST_ECU_RX_ID_def
      LOWEST_ECU_EXTENDED_RX_ID_def HIGHEST_ECU_EXTENDED_RX_ID_def)

lemma getTxIDByRxID_values:
  "getTxIDByRxID False rx = rx - 8"
  "getTxIDByRxID True rx = 0x18DA00F1 OR push_bit 8 (rx AND 0xFF)"
  by (simp_all add: getTxIDByRxID_def MASKING_GET_BYTE_def MASKING_SHIFT_BITS_def
      MASKING_TEMPLATE_TX_ID_def MASKING_REMOVE_BYTE_def or.commute)

lemma tx_range_11bit:
  fixes rx :: uint32
  shows "0x7E8 \<le> rx \<Longrightarrow> rx \<le> 0x7EF \<Longrightarrow> 0x7E0 \<le> rx - 8 \<and> rx - 8 \<le> 0x7E7"
  by unat_arith

lemma autoDetectECUs_loop_exact:
  "snd (autoDetectECUs_loop ext es acc) =
     acc @ map (frameCANId ext) (filter (isValidCANId ext) (framesRead es))"
  by (induction ext es acc rule: autoDetectECUs_loop.induct) simp_all

lemma framesRead_map_Received: "framesRead (map Received cs) = cs"
  by (induction cs) simp_all

lemma autoDetectECUs_exact:
  "setupOk \<Longrightarrow>
   snd (autoDetectECUs ext setupOk es closeOk acc) =
     acc @ map (frameCANId ext) (filter (isValidCANId ext) (framesRead es))"
  using autoDetectECUs_loop_exact [of ext es acc]
  by (auto simp: autoDetectECUs_def split: prod.splits)

lemma initECUs_loop_exact:
  "\<forall>rx \<in> set rs. initOk rx \<Longrightarrow>
   initECUs_loop ext initOk rs ecus =
     (True, ecus @ map (\<lambda>rx. (rx, getTxIDByRxID ext rx)) rs)"
  by (induction rs arbitrary: ecus) simp_all

lemma initECUs_exact:
  "\<forall>rx \<in> set rs. initOk rx \<Longrightarrow>
   initECUs ext initOk rs ecus =
     (True, ecus @ map (\<lambda>rx. (rx, getTxIDByRxID ext rx)) (sort (remdups rs)))"
  by (simp add: initECUs_def initECUs_loop_exact)

lemma ecu_pairs_in_range:
  assumes "(rx, tx) \<in> set (snd (initECUs ext initOk
                  (snd (autoDetectECUs ext setupOk events closeOk [])) []))"
  shows "if ext then 0x18DAF100 \<le> rx \<and> rx \<le> 0x18DAF1FF \<and>
                   tx = 0x18DA00F1 OR push_bit 8 (rx AND 0xFF)
       else 0x7E8 \<le> rx \<and> rx \<le> 0x7EF \<and> tx = rx - 8 \<and> 0x7E0 \<le> tx \<and> tx \<le> 0x7E7"
proof -
  let ?rs = "snd (autoDetectECUs ext setupOk events closeOk [])"
  from assms have rx: "rx \<in> set ?rs" and tx: "tx = getTxIDByRxID ext rx"
    using initECUs_loop_pairs [of rx tx ext initOk "sort (remdups ?rs)" "[]"]
    by (auto simp: initECUs_def)
  have "set ?rs \<subseteq> set (snd (autoDetectECUs_loop ext events []))"
    by (auto simp: autoDetectECUs_def split: prod.splits if_splits)
  with rx obtain c where c: "isValidCANId ext c" "rx = frameCANId ext c"
    using autoDetectECUs_loop_valid [of rx ext events "[]"] by auto
  show ?thesis
  proof (cases ext)
    case True
    with c tx isValidCANId_ranges [of ext c] getTxIDByRxID_values [of rx] show ?thesis
      by (simp add: frameCANId_def CAN_EFF_MASK_def)
  next
    case False
    with c isValidCANId_ranges [of ext c] have r: "0x7E8 \<le> rx" "rx \<le> 0x7EF"
      by (simp_all add: frameCANId_def)
    from False tx getTxIDByRxID_values(1) [of rx] have t: "tx = rx - 8" by simp
    from tx_range_11bit [OF r] r t False show ?thesis by simp
  qed
qed

text \<open>
  C7. A response frame is accepted as an ECU rx ID exactly when its CAN ID (masked to 29 bits
  in extended mode) lies in [0x7E8, 0x7EF] for 11-bit addressing or in
  [0x18DAF100, 0x18DAF1FF] for 29-bit addressing. Every ECU that \<open>initECUs\<close> creates from
  the responses collected by \<open>autoDetectECUs\<close> has such an rx ID, and its tx ID is
  \<open>rx - 8\<close> with 11-bit addressing (the subtraction does not wrap: the tx ID lies in
  [0x7E0, 0x7E7]) and \<open>0x18DA00F1 | ((rx & 0xFF) << 8)\<close> with 29-bit addressing.
  Nothing accepted is lost: once the socket is set up, the responses that \<open>autoDetectECUs\<close>
  appends are the (masked) IDs of all the frames in range that the loop reads, in the order
  read, and no others; a frame read by the loop is among the responses exactly when it is in
  range; when every frame is received, all those in range are collected. When every ECU
  initialises, \<open>initECUs\<close> creates one ECU for each distinct response, in ascending order of
  rx ID, with the tx ID computed by \<open>getTxIDByRxID\<close>.
\<close>

theorem obd_discovery_rx_tx_ids:
  "(isValidCANId ext c \<longleftrightarrow>
      (if ext then 0x18DAF100 \<le> (c AND 0x1FFFFFFF) \<and> (c AND 0x1FFFFFFF) \<le> 0x18DAF1FF
       else 0x7E8 \<le> c \<and> c \<le> 0x7EF)) \<and>
   (\<forall>rx tx. (rx, tx) \<in> set (snd (initECUs ext initOk
                  (snd (autoDetectECUs ext setupOk events closeOk [])) [])) \<longrightarrow>
      (if ext then 0x18DAF100 \<le> rx \<and> rx \<le> 0x18DAF1FF \<and>
                   tx = 0x18DA00F1 OR push_bit 8 (rx AND 0xFF)
       else 0x7E8 \<le> rx \<and> rx \<le> 0x7EF \<and> tx = rx - 8 \<and> 0x7E0 \<le> tx \<and> tx \<le> 0x7E7)) \<and>
   (setupOk \<longrightarrow>
      snd (autoDetectECUs ext setupOk events closeOk acc) =
        acc @ map (frameCANId ext) (filter (isValidCANId ext) (framesRead events))) \<and>
   (setupOk \<longrightarrow>
      (\<forall>c \<in> set (framesRead events).
          frameCANId ext c \<in> set (snd (autoDetectECUs ext setupOk events closeOk [])) \<longleftrightarrow>
          (if ext then 0x18DAF100 \<le> (c AND 0x1FFFFFFF) \<and> (c AND 0x1FFFFFFF) \<le> 0x18DAF1FF
           else 0x7E8 \<le> c \<and> c \<le> 0x7EF))) \<and>
   snd (autoDetectECUs ext True (map Received cs) closeOk []) =
     map (frameCANId ext) (filter (isValidCANId ext) cs) \<and>
   ((\<forall>rx \<in> set rs. initOk rx) \<longrightarrow>
      initECUs ext initOk rs [] =
        (True, map (\<lambda>rx. (rx, getTxIDByRxID ext rx)) (sort (remdups rs))) \<and>
      fst ` set (snd (initECUs ext initOk rs [])) = set rs)"
proof -
  have valid: "isValidCANId ext c \<longleftrightarrow>
      (if ext then 0x18DAF100 \<le> (c AND 0x1FFFFFFF) \<and> (c AND 0x1FFFFFFF) \<le> 0x18DAF1FF
       else 0x7E8 \<le> c \<and> c \<le> 0x7EF)" for c
    by (rule isValidCANId_ranges)
  have pairs: "\<forall>rx tx. (rx, tx) \<in> set (snd (initECUs ext initOk
                  (snd (autoDetectECUs ext setupOk events closeOk [])) [])) \<longrightarrow>
      (if ext then 0x18DAF100 \<le> rx \<and> rx \<le> 0x18DAF1FF \<and>
                   tx = 0x18DA00F1 OR push_bit 8 (rx AND 0xFF)
       else 0x7E8 \<le> rx \<and> rx \<le> 0x7EF \<and> tx = rx - 8 \<and> 0x7E0 \<le> tx \<and> tx \<le> 0x7E7)"
    using ecu_pairs_in_range [of _ _ ext initOk setupOk events closeOk] by blast
  have exact: "setupOk \<longrightarrow>
      snd (autoDetectECUs ext setupOk events closeOk acc) =
        acc @ map (frameCANId ext) (filter (isValidCANId ext) (framesRead events))"
    by (simp add: autoDetectECUs_exact)
  have mem: "setupOk \<longrightarrow>
      (\<forall>c \<in> set (framesRead events).
          frameCANId ext c \<in> set (snd (autoDetectECUs ext setupOk events closeOk [])) \<longleftrightarrow>
          (if ext then 0x18DAF100 \<le> (c AND 0x1FFFFFFF) \<and> (c AND 0x1FFFFFFF) \<le> 0x18DAF1FF
           else 0x7E8 \<le> c \<and> c \<le> 0x7EF))"
  proof (intro impI ballI)
    fix c
    assume ok: setupOk and c: "c \<in> set (framesRead events)"
    have res: "set (snd (autoDetectECUs ext setupOk events closeOk [])) =
        frameCANId ext ` {x \<in> set (framesRead events). isValidCANId ext x}"
      by (simp add: autoDetectECUs_exact [OF ok])
    have "frameCANId ext c \<in> set (snd (autoDetectECUs ext setupOk events closeOk [])) \<longleftrightarrow>
          isValidCANId ext c"
    proof
      assume "frameCANId ext c \<in> set (snd (autoDetectECUs ext setupOk events closeOk []))"
      then obtain x where x: "isValidCANId ext x" "frameCANId ext c = frameCANId ext x"
        unfolding res by blast
      then show "isValidCANId ext c" by (simp add: isValidCANId_def)
    next
      assume "isValidCANId ext c"
      with c show "frameCANId ext c \<in> set (snd (autoDetectECUs ext setupOk events closeOk []))"
        unfolding res by blast
    qed
    then show "frameCANId ext c \<in> set (snd (autoDetectECUs ext setupOk events closeOk [])) \<longleftrightarrow>
          (if ext then 0x18DAF100 \<le> (c AND 0x1FFFFFFF) \<and> (c AND 0x1FFFFFFF) \<le> 0x18DAF1FF
           else 0x7E8 \<le> c \<and> c \<le> 0x7EF)"
      unfolding valid .
  qed
  have all: "snd (autoDetectECUs ext True (map Received cs) closeOk []) =
     map (frameCANId ext) (filter (isValidCANId ext) cs)"
    by (simp add: autoDetectECUs_exact framesRead_map_Received)
  have init: "(\<forall>rx \<in> set rs. initOk rx) \<longrightarrow>
      initECUs ext initOk rs [] =
        (True, map (\<lambda>rx. (rx, getTxIDByRxID ext rx)) (sort (remdups rs))) \<and>
      fst ` set (snd (initECUs ext initOk rs [])) = set rs"
  proof
    assume ok: "\<forall>rx \<in> set rs. initOk rx"
    have e: "initECUs ext initOk rs [] =
        (True, map (\<lambda>rx. (rx, getTxIDByRxID ext rx)) (sort (remdups rs)))"
      using initECUs_exact [OF ok, of ext "[]"] by simp
    have "fst ` set (snd (initECUs ext initOk rs [])) = set rs"
      unfolding e by (simp add: image_image)
    with e show "initECUs ext initOk rs [] =
        (True, map (\<lambda>rx. (rx, getTxIDByRxID ext rx)) (sort (remdups rs))) \<and>
      fst ` set (snd (initECUs ext initOk rs [])) = set rs" ..
  qed
  show ?thesis
  proof (intro conjI)
    show "isValidCANId ext c \<longleftrightarrow>
      (if ext then 0x18DAF100 \<le> (c AND 0x1FFFFFFF) \<and> (c AND 0x1FFFFFFF) \<le> 0x18DAF1FF
       else 0x7E8 \<le> c \<and> c \<le> 0x7EF)" by (rule valid)
  qed (rule pairs exact mem all init)+
qed

lemmas obd_defs =
  isValidCANId_def frameCANId_def smallestCANId_def biggestCANId_def CAN_EFF_MASK_def
  LOWEST_ECU_RX_ID_def HIGHEST_ECU_RX_ID_def LOWEST_ECU_EXTENDED_RX_ID_def
  HIGHEST_ECU_EXTENDED_RX_ID_def initECUs_def autoDetectECUs_def getTxIDByRxID_def
  MASKING_GET_BYTE_def MASKING_SHIFT_BITS_def MASKING_TEMPLATE_TX_ID_def MASKING_REMOVE_BYTE_def

theorem obd_discovery_rx_tx_ids_witness:
  "(0x7E9, 0x7E1) \<in> set (snd (initECUs False (\<lambda>_. True)
      (snd (autoDetectECUs False True
              [Received 0x7E9, Received 0x123, Received 0x7E8, Received 0x7E9] True [])) [])) \<and>
   (0x7E8 :: uint32) \<le> 0x7E9 \<and> (0x7E9 :: uint32) \<le> 0x7EF \<and> (0x7E1 :: uint32) = 0x7E9 - 8 \<and>
   (0x18DAF159, 0x18DA59F1) \<in> set (snd (initECUs True (\<lambda>_. True)
      (snd (autoDetectECUs True True [Received 0x98DAF159, Received 0x7E8] True [])) [])) \<and>
   (0x18DA59F1 :: uint32) = 0x18DA00F1 OR push_bit 8 (0x18DAF159 AND 0xFF) \<and>
   snd (autoDetectECUs False True
          [Received 0x7E9, Received 0x123, Received 0x7E8, Received 0x7E9] True [])
     = [0x7E9, 0x7E8, 0x7E9] \<and>
   initECUs False (\<lambda>_. True) [0x7E9, 0x7E8, 0x7E9] [] = (True, [(0x7E8, 0x7E0), (0x7E9, 0x7E1)])"
proof -
  have m11: "(0x7E9, 0x7E1) \<in> set (snd (initECUs False (\<lambda>_. True)
      (snd (autoDetectECUs False True
              [Received 0x7E9, Received 0x123, Received 0x7E8, Received 0x7E9] True [])) []))"
    by (simp add: obd_defs)
  have m29: "(0x18DAF159, 0x18DA59F1) \<in> set (snd (initECUs True (\<lambda>_. True)
      (snd (autoDetectECUs True True [Received 0x98DAF159, Received 0x7E8] True [])) []))"
    by (simp add: obd_defs)
  note t11 = obd_discovery_rx_tx_ids [of False 0 "\<lambda>_. True" True
      "[Received 0x7E9, Received 0x123, Received 0x7E8, Received 0x7E9]" True "[]"
      "[0x7E9, 0x123, 0x7E8, 0x7E9]" "[0x7E9, 0x7E8, 0x7E9]"]
  note t29 = obd_discovery_rx_tx_ids [of True 0 "\<lambda>_. True" True
      "[Received 0x98DAF159, Received 0x7E8]" True "[]" "[]" "[]"]
  from t11 [THEN conjunct2, THEN conjunct1, rule_format, OF m11]
  have r11: "(0x7E8 :: uint32) \<le> 0x7E9 \<and> (0x7E9 :: uint32) \<le> 0x7EF \<and> (0x7E1 :: uint32) = 0x7E9 - 8"
    by simp
  from t29 [THEN conjunct2, THEN conjunct1, rule_format, OF m29]
  have r29: "(0x18DA59F1 :: uint32) = 0x18DA00F1 OR push_bit 8 (0x18DAF159 AND 0xFF)"
    by simp
  from t11 [THEN conjunct2, THEN conjunct2, THEN conjunct2, THEN conjunct2, THEN conjunct1]
  have all: "snd (autoDetectECUs False True
          [Received 0x7E9, Received 0x123, Received 0x7E8, Received 0x7E9] True [])
     = [0x7E9, 0x7E8, 0x7E9]"
    by (simp add: obd_defs)
  from t11 [THEN conjunct2, THEN conjunct2, THEN conjunct2, THEN conjunct2, THEN conjunct2]
  have ini: "initECUs False (\<lambda>_. True) [0x7E9, 0x7E8, 0x7E9] [] =
      (True, [(0x7E8, 0x7E0), (0x7E9, 0x7E1)])"
    by (simp add: obd_defs)
  from m11 r11 m29 r29 all ini show ?thesis by blast
qed

subsection \<open>The worker thread and the requests\<close>

text \<open>
  A module that was never started: both request intervals are 0, no thread runs \<open>doWork\<close>
  and no ECU has been created. Nothing that happens to such a module changes this, and
  nothing is requested.
\<close>

lemma obd_step_never_started:
  assumes "mPIDRequestIntervalSeconds m = 0" "mDTCRequestIntervalSeconds m = 0"
    "doWorkAt m = NoThread" "\<not> mThreadValid m" "\<not> mThreadActive m" "mECUs m = []"
  shows "mPIDRequestIntervalSeconds (obd_step e m) = 0 \<and>
         mDTCRequestIntervalSeconds (obd_step e m) = 0 \<and>
         doWorkAt (obd_step e m) = NoThread \<and>
         \<not> mThreadValid (obd_step e m) \<and> \<not> mThreadActive (obd_step e m) \<and>
         mECUs (obd_step e m) = [] \<and>
         busRequests (obd_step e m) = busRequests m"
proof (cases e)
  case (Connect created)
  with assms show ?thesis by (simp add: obd_step_def connect_def)
next
  case Disconnect
  with assms show ?thesis by (simp add: obd_step_def disconnect_def stop_def)
next
  case (ChangeInspectionMatrix inspectionMatrix)
  with assms show ?thesis
    by (simp add: obd_step_def onChangeInspectionMatrix_def split: option.splits)
next
  case (ChangeOfActiveDictionary dictionary isOBD)
  with assms show ?thesis
    by (simp add: obd_step_def onChangeOfActiveDictionary_def assignPIDsToECUs_def Let_def
        split: option.splits)
next
  case (WorkerTurn i)
  with assms show ?thesis by (simp add: obd_step_def doWork_turn_def)
qed

lemma fold_obd_step_never_started:
  assumes "mPIDRequestIntervalSeconds m = 0" "mDTCRequestIntervalSeconds m = 0"
    "doWorkAt m = NoThread" "\<not> mThreadValid m" "\<not> mThreadActive m" "mECUs m = []"
  shows "doWorkAt (fold obd_step es m) = NoThread \<and>
         \<not> mThreadValid (fold obd_step es m) \<and> \<not> mThreadActive (fold obd_step es m) \<and>
         mECUs (fold obd_step es m) = [] \<and>
         busRequests (fold obd_step es m) = busRequests m"
  using assms
proof (induction es arbitrary: m)
  case Nil
  then show ?case by simp
next
  case (Cons e es)
  from obd_step_never_started [OF Cons.prems, of e]
  have s: "mPIDRequestIntervalSeconds (obd_step e m) = 0"
    "mDTCRequestIntervalSeconds (obd_step e m) = 0"
    "doWorkAt (obd_step e m) = NoThread"
    "\<not> mThreadValid (obd_step e m)" "\<not> mThreadActive (obd_step e m)"
    "mECUs (obd_step e m) = []"
    and b: "busRequests (obd_step e m) = busRequests m"
    by simp_all
  from Cons.IH [OF s] b show ?case by simp
qed

lemma doWork_detect_broadcast:
  assumes "dataAvailable i" "setupOk11 i"
  shows "\<exists>rest. busRequests (doWork_detect i m) = busRequests m @ BroadcastRequest False # rest"
  using assms
  by (auto simp: doWork_detect_def doWork_initECUs_def Let_def split: prod.splits)

text \<open>
  C10. If both \<open>pidRequestIntervalSeconds\<close> and \<open>dtcRequestIntervalSeconds\<close> are 0,
  \<open>connect\<close> returns true and leaves the module as it was: \<open>start\<close> is not called and no
  worker thread is created. So, for a module that was never started (no thread, no ECU),
  whatever happens afterwards, in any order (calls of \<open>connect\<close>, \<open>disconnect\<close>,
  \<open>onChangeInspectionMatrix\<close>, \<open>onChangeOfActiveDictionary\<close>, and turns of the worker
  whenever there is a thread to take them): no thread ever runs \<open>doWork\<close>, no ECU is created
  and nothing is requested, neither the discovery broadcast nor supported PIDs, PIDs or
  DTCs. \<open>doWork\<close> takes no turn without a thread, and a decoder dictionary that arrives
  requests nothing while there is no ECU.
  If at least one interval is non-zero, \<open>connect\<close> is \<open>start\<close>: it creates the worker
  thread, and when the creation succeeds the result is true, the thread is valid and active
  and stands at the beginning of \<open>doWork\<close>; its first turn that is notified and writes the
  broadcast issues the 11-bit discovery request.
\<close>

theorem connect_thread_iff_interval:
  "(mPIDRequestIntervalSeconds m = 0 \<and> mDTCRequestIntervalSeconds m = 0 \<longrightarrow>
      connect created m = (True, m)) \<and>
   (mPIDRequestIntervalSeconds m = 0 \<and> mDTCRequestIntervalSeconds m = 0 \<and>
    doWorkAt m = NoThread \<and> \<not> mThreadValid m \<and> \<not> mThreadActive m \<and> mECUs m = [] \<longrightarrow>
      doWorkAt (fold obd_step es m) = NoThread \<and>
      \<not> mThreadValid (fold obd_step es m) \<and>
      \<not> mThreadActive (fold obd_step es m) \<and>
      mECUs (fold obd_step es m) = [] \<and>
      busRequests (fold obd_step es m) = busRequests m) \<and>
   (doWorkAt m = NoThread \<longrightarrow> doWork_turn i m = m) \<and>
   (mECUs m = [] \<longrightarrow>
      busRequests (onChangeOfActiveDictionary dictionary isOBD m) = busRequests m) \<and>
   (mPIDRequestIntervalSeconds m \<noteq> 0 \<or> mDTCRequestIntervalSeconds m \<noteq> 0 \<longrightarrow>
      connect created m = start created m \<and>
      (created \<longrightarrow> fst (connect created m) \<and>
         mThreadValid (snd (connect created m)) \<and> mThreadActive (snd (connect created m)) \<and>
         doWorkAt (snd (connect created m)) = DetectingECUs \<and>
         (dataAvailable i \<and> setupOk11 i \<longrightarrow>
            (\<exists>rest. busRequests (doWork_turn i (snd (connect created m))) =
                      busRequests m @ BroadcastRequest False # rest))))"
proof -
  have a: "mPIDRequestIntervalSeconds m = 0 \<and> mDTCRequestIntervalSeconds m = 0 \<longrightarrow>
      connect created m = (True, m)"
    by (simp add: connect_def)
  have b: "mPIDRequestIntervalSeconds m = 0 \<and> mDTCRequestIntervalSeconds m = 0 \<and>
    doWorkAt m = NoThread \<and> \<not> mThreadValid m \<and> \<not> mThreadActive m \<and> mECUs m = [] \<longrightarrow>
      doWorkAt (fold obd_step es m) = NoThread \<and>
      \<not> mThreadValid (fold obd_step es m) \<and>
      \<not> mThreadActive (fold obd_step es m) \<and>
      mECUs (fold obd_step es m) = [] \<and>
      busRequests (fold obd_step es m) = busRequests m"
    using fold_obd_step_never_started [of m es] by blast
  have c: "doWorkAt m = NoThread \<longrightarrow> doWork_turn i m = m"
    by (simp add: doWork_turn_def)
  have d: "mECUs m = [] \<longrightarrow>
      busRequests (onChangeOfActiveDictionary dictionary isOBD m) = busRequests m"
    by (simp add: onChangeOfActiveDictionary_def assignPIDsToECUs_def Let_def
        split: option.splits)
  have e: "mPIDRequestIntervalSeconds m \<noteq> 0 \<or> mDTCRequestIntervalSeconds m \<noteq> 0 \<longrightarrow>
      connect created m = start created m \<and>
      (created \<longrightarrow> fst (connect created m) \<and>
         mThreadValid (snd (connect created m)) \<and> mThreadActive (snd (connect created m)) \<and>
         doWorkAt (snd (connect created m)) = DetectingECUs \<and>
         (dataAvailable i \<and> setupOk11 i \<longrightarrow>
            (\<exists>rest. busRequests (doWork_turn i (snd (connect created m))) =
                      busRequests m @ BroadcastRequest False # rest)))"
  proof (intro impI conjI)
    assume nz: "mPIDRequestIntervalSeconds m \<noteq> 0 \<or> mDTCRequestIntervalSeconds m \<noteq> 0"
    then show eq: "connect created m = start created m" by (auto simp: connect_def)
    {
      assume created
      then show "fst (connect created m)" "mThreadValid (snd (connect created m))"
        "mThreadActive (snd (connect created m))"
        "doWorkAt (snd (connect created m)) = DetectingECUs"
        unfolding eq by (simp_all add: start_def Let_def)
    }
    {
      assume cr: created and i: "dataAvailable i \<and> setupOk11 i"
      have at: "doWorkAt (snd (start created m)) = DetectingECUs"
        and rq: "busRequests (snd (start created m)) = busRequests m"
        using cr by (simp_all add: start_def Let_def)
      from i doWork_detect_broadcast [of i "snd (start created m)"]
      show "\<exists>rest. busRequests (doWork_turn i (snd (connect created m))) =
                      busRequests m @ BroadcastRequest False # rest"
        unfolding eq by (simp add: doWork_turn_def at rq)
    }
  qed
  from a b c d e show ?thesis by (intro conjI)
qed

theorem connect_thread_iff_interval_witness:
  "connect True (exampleModule 0 0) = (True, exampleModule 0 0) \<and>
   busRequests (fold obd_step
      [Connect True, ChangeOfActiveDictionary (Some [[12, 13]]) True,
       ChangeInspectionMatrix (Some [True]), WorkerTurn (exampleTurn 0 [0x7E8, 0x7E9]),
       WorkerTurn (exampleTurn 5 []), Disconnect, Connect True,
       WorkerTurn (exampleTurn 9 [0x7E8])]
      (exampleModule 0 0)) = [] \<and>
   doWorkAt (snd (connect True (exampleModule 5 0))) = DetectingECUs \<and>
   busRequests (fold obd_step
      [Connect True, ChangeOfActiveDictionary (Some [[12, 13]]) True,
       ChangeInspectionMatrix (Some [True]), WorkerTurn (exampleTurn 0 [0x7E8, 0x7E9]),
       WorkerTurn (exampleTurn 5 [])]
      (exampleModule 5 0))
     = [BroadcastRequest False,
        RequestReceiveSupportedPIDs 0x7E8, RequestReceiveSupportedPIDs 0x7E9,
        RequestReceiveEmissionPIDs 0x7E8, RequestReceiveEmissionPIDs 0x7E9]"
proof -
  note z = connect_thread_iff_interval [of "exampleModule 0 0" True
      "[Connect True, ChangeOfActiveDictionary (Some [[12, 13]]) True,
        ChangeInspectionMatrix (Some [True]), WorkerTurn (exampleTurn 0 [0x7E8, 0x7E9]),
        WorkerTurn (exampleTurn 5 []), Disconnect, Connect True,
        WorkerTurn (exampleTurn 9 [0x7E8])]" "exampleTurn 0 [0x7E8, 0x7E9]" None True]
  note n = connect_thread_iff_interval [of "exampleModule 5 0" True "[]"
      "exampleTurn 0 [0x7E8, 0x7E9]" None True]
  from z [THEN conjunct1]
  have a: "connect True (exampleModule 0 0) = (True, exampleModule 0 0)"
    by (simp add: exampleModule_def)
  from z [THEN conjunct2, THEN conjunct1]
  have b: "busRequests (fold obd_step
      [Connect True, ChangeOfActiveDictionary (Some [[12, 13]]) True,
       ChangeInspectionMatrix (Some [True]), WorkerTurn (exampleTurn 0 [0x7E8, 0x7E9]),
       WorkerTurn (exampleTurn 5 []), Disconnect, Connect True,
       WorkerTurn (exampleTurn 9 [0x7E8])]
      (exampleModule 0 0)) = []"
    by (simp add: exampleModule_def)
  from n [THEN conjunct2, THEN conjunct2, THEN conjunct2, THEN conjunct2]
  have c: "doWorkAt (snd (connect True (exampleModule 5 0))) = DetectingECUs"
    by (simp add: exampleModule_def connect_def start_def)
  have d: "busRequests (fold obd_step
      [Connect True, ChangeOfActiveDictionary (Some [[12, 13]]) True,
       ChangeInspectionMatrix (Some [True]), WorkerTurn (exampleTurn 0 [0x7E8, 0x7E9]),
       WorkerTurn (exampleTurn 5 [])]
      (exampleModule 5 0))
     = [BroadcastRequest False,
        RequestReceiveSupportedPIDs 0x7E8, RequestReceiveSupportedPIDs 0x7E9,
        RequestReceiveEmissionPIDs 0x7E8, RequestReceiveEmissionPIDs 0x7E9]"
    by (simp add: obd_step_def connect_def start_def onChangeOfActiveDictionary_def
        onChangeInspectionMatrix_def assignPIDsToECUs_def doWork_turn_def doWork_detect_def
        doWork_initECUs_def doWork_acquire_def exampleModule_def exampleTurn_def Let_def obd_defs)
  from a b c d show ?thesis by blast
qed

section \<open>Properties of the Policy Manager\<close>

subsection \<open>What a pass notifies\<close>

lemma rebuildStep_notifiedPart:
  "notifiedPart (snd (rebuildStep t cs acc)) = notifiedPart (snd acc)"
  by (simp add: rebuildStep_def notifiedPart_def Let_def)

lemma fold_rebuildStep_notifiedPart:
  "notifiedPart (snd (fold (rebuildStep t) l acc)) = notifiedPart (snd acc)"
  by (induction l arbitrary: acc) (simp_all add: rebuildStep_notifiedPart)

lemma updateStep_notifiedPart:
  "notifiedPart (snd (updateStep t cs acc)) = notifiedPart (snd acc)"
  by (simp add: updateStep_def notifiedPart_def Let_def split: option.splits)

lemma fold_updateStep_notifiedPart:
  "notifiedPart (snd (fold (updateStep t) l acc)) = notifiedPart (snd acc)"
  by (induction l arbitrary: acc) (simp_all add: updateStep_notifiedPart)

lemma updateMapsandTimeLine_notifiedPart:
  "notifiedPart (snd (updateMapsandTimeLine t s)) = notifiedPart s"
proof (cases "mCollectionSchemeList s")
  case None
  then show ?thesis by (simp add: updateMapsandTimeLine_def)
next
  case (Some l)
  have "notifiedPart (snd (fold (updateStep t) (getCollectionSchemes l) (False, s))) = notifiedPart s"
    by (simp add: fold_updateStep_notifiedPart)
  then show ?thesis using Some
    by (simp add: updateMapsandTimeLine_def Let_def notifiedPart_def)
qed

lemma processCollectionScheme_notifiedPart:
  "notifiedPart (snd (processCollectionScheme t s)) = notifiedPart s"
proof -
  have "notifiedPart (store COLLECTION_SCHEME_LIST s) = notifiedPart s"
    by (simp add: notifiedPart_def store_def)
  then show ?thesis
    by (simp add: processCollectionScheme_def Let_def rebuildMapsandTimeLine_def
        fold_rebuildStep_notifiedPart updateMapsandTimeLine_notifiedPart split: option.splits)
      (simp add: notifiedPart_def)
qed

lemma processDecoderManifest_notifiedPart:
  "notifiedPart (snd (processDecoderManifest s)) = notifiedPart s"
  by (simp add: processDecoderManifest_def Let_def store_def notifiedPart_def split: option.splits)

lemma checkTimeLine_body_notifiedPart:
  "checkTimeLine_body t e s = Some (f, s') \<Longrightarrow> notifiedPart s' = notifiedPart s"
  by (auto simp: checkTimeLine_body_def checkTimeLine_examine_def notifiedPart_def Let_def
      split: option.splits if_splits)

lemma checkTimeLine_loop_notifiedPart:
  "notifiedPart (snd (checkTimeLine_loop t q acc)) = notifiedPart (snd acc)"
proof (induction q arbitrary: acc)
  case Nil
  show ?case by (simp add: notifiedPart_def)
next
  case (Cons e q)
  show ?case
  proof (cases "checkTimeLine_body t e (snd acc)")
    case None
    then show ?thesis by (simp add: notifiedPart_def)
  next
    case (Some r)
    obtain f s' where r: "r = (f, s')" by (cases r)
    with Some Cons [of "(fst acc \<or> f, s')"] checkTimeLine_body_notifiedPart [of t e "snd acc" f s']
    show ?thesis by simp
  qed
qed

lemma checkTimeLine_notifiedPart:
  "notifiedPart (snd (checkTimeLine t s)) = notifiedPart s"
  by (simp add: checkTimeLine_def checkTimeLine_loop_notifiedPart split: list.splits)

lemma guarded_steps_notifiedPart:
  "notifiedPart (snd (if b then processDecoderManifest (x\<lparr>mProcessDecoderManifest := False\<rparr>)
                      else (False, x))) = notifiedPart x"
  "notifiedPart (snd (if b then processCollectionScheme t (x\<lparr>mProcessCollectionScheme := False\<rparr>)
                      else (False, x))) = notifiedPart x"
  by (simp_all add: processDecoderManifest_notifiedPart processCollectionScheme_notifiedPart)
    (simp_all add: notifiedPart_def)

lemma doWork_pass_notifications:
  "checkinDocumentsNotified (snd (snd (doWork_pass t1 ct ini s))) =
     (if fst (doWork_pass t1 ct ini s) \<or> fst (snd (doWork_pass t1 ct ini s)) \<or> ini
      then checkinMsg (snd (snd (doWork_pass t1 ct ini s))) # checkinDocumentsNotified s
      else checkinDocumentsNotified s) \<and>
   activeCollectionSchemesNotified (snd (snd (doWork_pass t1 ct ini s))) =
     (if fst (doWork_pass t1 ct ini s) \<or> fst (snd (doWork_pass t1 ct ini s))
      then activeCollectionSchemes (snd (snd (doWork_pass t1 ct ini s))) #
             activeCollectionSchemesNotified s
      else activeCollectionSchemesNotified s)"
proof -
  define r1 where "r1 = (if mProcessDecoderManifest s
                then processDecoderManifest (s\<lparr>mProcessDecoderManifest := False\<rparr>)
                else (False, s))"
  define r2 where "r2 = (if mProcessCollectionScheme (snd r1)
                then processCollectionScheme t1 ((snd r1)\<lparr>mProcessCollectionScheme := False\<rparr>)
                else (False, snd r1))"
  define r3 where "r3 = checkTimeLine ct (snd r2)"
  define dc where "dc \<longleftrightarrow> fst r1 \<or> fst r2 \<or> fst r3"
  define s4 where "s4 = (if dc \<or> ini then updateCheckinDocuments (snd r3) else snd r3)"
  define s5 where "s5 = (if dc then updateActiveCollectionSchemeListeners s4 else s4)"
  have pass: "doWork_pass t1 ct ini s = (fst r1, fst r2 \<or> fst r3, s5)"
    unfolding doWork_pass_def Let_def s5_def s4_def dc_def r3_def r2_def r1_def
    by (rule refl)
  have n1: "notifiedPart (snd r1) = notifiedPart s"
    unfolding r1_def by (rule guarded_steps_notifiedPart)
  have n2: "notifiedPart (snd r2) = notifiedPart (snd r1)"
    unfolding r2_def by (rule guarded_steps_notifiedPart)
  have n3: "notifiedPart (snd r3) = notifiedPart s"
    unfolding r3_def using n1 n2 checkTimeLine_notifiedPart [of ct "snd r2"] by simp
  then have k: "checkinDocumentsNotified (snd r3) = checkinDocumentsNotified s"
    "activeCollectionSchemesNotified (snd r3) = activeCollectionSchemesNotified s"
    by (simp_all add: notifiedPart_def)
  have c: "checkinMsg (updateActiveCollectionSchemeListeners x) = checkinMsg x"
    "checkinMsg (updateCheckinDocuments x) = checkinMsg x"
    "activeCollectionSchemes (updateCheckinDocuments x) = activeCollectionSchemes x"
    "activeCollectionSchemes (updateActiveCollectionSchemeListeners x) = activeCollectionSchemes x"
    for x
    by (simp_all add: checkinMsg_def activeCollectionSchemes_def
        isCollectionSchemesInSyncWithDm_def updateCheckinDocuments_def
        updateActiveCollectionSchemeListeners_def)
  have msg: "checkinMsg s5 = checkinMsg (snd r3)"
    and act: "activeCollectionSchemes s5 = activeCollectionSchemes (snd r3)"
    by (simp_all add: s5_def s4_def c)
  have chk: "checkinDocumentsNotified s5 =
      (if dc \<or> ini then checkinMsg (snd r3) # checkinDocumentsNotified s
       else checkinDocumentsNotified s)"
    by (simp add: s5_def s4_def k updateCheckinDocuments_def
        updateActiveCollectionSchemeListeners_def)
  have pub: "activeCollectionSchemesNotified s5 =
      (if dc then activeCollectionSchemes (snd r3) # activeCollectionSchemesNotified s
       else activeCollectionSchemesNotified s)"
  proof -
    have "activeCollectionSchemesNotified s4 = activeCollectionSchemesNotified s"
      by (simp add: s4_def k updateCheckinDocuments_def)
    moreover have "activeCollectionSchemes s4 = activeCollectionSchemes (snd r3)"
      by (simp add: s4_def c)
    ultimately show ?thesis
      by (simp add: s5_def updateActiveCollectionSchemeListeners_def)
  qed
  from chk msg have chk': "checkinDocumentsNotified s5 =
      (if dc \<or> ini then checkinMsg s5 # checkinDocumentsNotified s
       else checkinDocumentsNotified s)"
    by simp
  from pub act have pub': "activeCollectionSchemesNotified s5 =
      (if dc then activeCollectionSchemes s5 # activeCollectionSchemesNotified s
       else activeCollectionSchemesNotified s)"
    by simp
  have fin: "snd (snd (doWork_pass t1 ct ini s)) = s5"
    and f1: "fst (doWork_pass t1 ct ini s) = fst r1"
    and f2: "fst (snd (doWork_pass t1 ct ini s)) = (fst r2 \<or> fst r3)"
    by (simp_all add: pass)
  show ?thesis
    unfolding fin f1 f2 using chk' pub' by (auto simp: dc_def)
qed

subsection \<open>Checkin documents\<close>

text \<open>
  C6 (as amended). Every checkin document lists the IDs of the schemes in the Enabled map, the
  IDs of the schemes in the Idle map and, when it is not the empty string, the current
  decoder-manifest ID, each as often as it occurs there, and nothing else. An empty manifest
  ID is left out of the document. A pass of \<open>doWork\<close> emits at most one document, built from
  the maps and the manifest ID the manager holds at the end of the pass.
\<close>

theorem checkin_lists_loaded_ids:
  "hd (checkinDocumentsNotified (updateCheckinDocuments s)) = checkinMsg s \<and>
   mset (checkinMsg s) =
     mset (map fst (mEnabledCollectionSchemeMap s)) + mset (map fst (mIdleCollectionSchemeMap s)) +
     (if mCurrentDecoderManifestID s = [] then {#} else {#mCurrentDecoderManifestID s#}) \<and>
   set (checkinMsg s) =
     fst ` set (mEnabledCollectionSchemeMap s) \<union> fst ` set (mIdleCollectionSchemeMap s) \<union>
     (if mCurrentDecoderManifestID s = [] then {} else {mCurrentDecoderManifestID s}) \<and>
   (checkinDocumentsNotified (snd (snd (doWork_pass t1 ct ini s))) = checkinDocumentsNotified s \<or>
    checkinDocumentsNotified (snd (snd (doWork_pass t1 ct ini s))) =
      checkinMsg (snd (snd (doWork_pass t1 ct ini s))) # checkinDocumentsNotified s)"
proof -
  have "checkinDocumentsNotified (snd (snd (doWork_pass t1 ct ini s))) = checkinDocumentsNotified s \<or>
    checkinDocumentsNotified (snd (snd (doWork_pass t1 ct ini s))) =
      checkinMsg (snd (snd (doWork_pass t1 ct ini s))) # checkinDocumentsNotified s"
    using doWork_pass_notifications [of t1 ct ini s] by (auto split: if_splits)
  then show ?thesis
    by (simp add: updateCheckinDocuments_def checkinMsg_def)
qed

theorem checkin_lists_loaded_ids_witness:
  "checkinMsg (manager [(''P1'', scheme ''P1'' ''DM1'' 1000 5000)]
                 [(''P2'', scheme ''P2'' ''DM1'' 9000 9500)] [] ''DM1'' None None)
     = [''P1'', ''P2'', ''DM1''] \<and>
   checkinMsg (manager [(''P1'', scheme ''P1'' ''DM1'' 1000 5000)] [] [] [] None None) = [''P1'']"
  using checkin_lists_loaded_ids [of "manager [(''P1'', scheme ''P1'' ''DM1'' 1000 5000)]
                 [(''P2'', scheme ''P2'' ''DM1'' 9000 9500)] [] ''DM1'' None None" 0 0 False]
  by (simp add: checkinMsg_def manager_def)

text \<open>
  With the empty manifest ID the document differs from the set \<open>Enabled \<union> Idle \<union> {manifest_id}\<close>:
  the empty ID is not listed.
\<close>

theorem checkin_manifest_id_counterexample:
  "set (hd (checkinDocumentsNotified (updateCheckinDocuments
      (manager [(''P1'', scheme ''P1'' ''DM1'' 1000 5000)] [] [] [] None None))))
   \<noteq> checkin_spec (manager [(''P1'', scheme ''P1'' ''DM1'' 1000 5000)] [] [] [] None None)"
  by (simp add: updateCheckinDocuments_def checkinMsg_def checkin_spec_def manager_def)

subsection \<open>Decoder manifest\<close>

lemma store_manifest_fields:
  "mCurrentDecoderManifestID (store t s) = mCurrentDecoderManifestID s"
  "mDecoderManifest (store t s) = mDecoderManifest s"
  "storedDecoderManifest (store COLLECTION_SCHEME_LIST s) = storedDecoderManifest s"
  by (simp_all add: store_def split: DataType.splits)

lemma rebuildStep_manifestPart:
  "manifestPart (snd (rebuildStep t cs acc)) = manifestPart (snd acc)"
  by (simp add: rebuildStep_def manifestPart_def Let_def)

lemma fold_rebuildStep_manifestPart:
  "manifestPart (snd (fold (rebuildStep t) l acc)) = manifestPart (snd acc)"
  by (induction l arbitrary: acc) (simp_all add: rebuildStep_manifestPart)

lemma updateStep_manifestPart:
  "manifestPart (snd (updateStep t cs acc)) = manifestPart (snd acc)"
  by (simp add: updateStep_def manifestPart_def Let_def split: option.splits)

lemma fold_updateStep_manifestPart:
  "manifestPart (snd (fold (updateStep t) l acc)) = manifestPart (snd acc)"
  by (induction l arbitrary: acc) (simp_all add: updateStep_manifestPart)

lemma rebuildMapsandTimeLine_manifestPart:
  "manifestPart (snd (rebuildMapsandTimeLine t s)) = manifestPart s"
  by (simp add: rebuildMapsandTimeLine_def fold_rebuildStep_manifestPart split: option.splits)

lemma updateMapsandTimeLine_manifestPart:
  "manifestPart (snd (updateMapsandTimeLine t s)) = manifestPart s"
proof (cases "mCollectionSchemeList s")
  case None
  then show ?thesis by (simp add: updateMapsandTimeLine_def)
next
  case (Some l)
  have "manifestPart (snd (fold (updateStep t) (getCollectionSchemes l) (False, s))) = manifestPart s"
    by (simp add: fold_updateStep_manifestPart)
  then show ?thesis using Some
    by (simp add: updateMapsandTimeLine_def Let_def manifestPart_def)
qed

lemma processCollectionScheme_manifestPart:
  "manifestPart (snd (processCollectionScheme t s)) = manifestPart s"
proof -
  have "manifestPart (store COLLECTION_SCHEME_LIST s) = manifestPart s"
    by (simp add: manifestPart_def store_manifest_fields)
  then show ?thesis
    by (simp add: processCollectionScheme_def Let_def rebuildMapsandTimeLine_manifestPart
        updateMapsandTimeLine_manifestPart split: option.splits)
      (simp add: manifestPart_def)
qed

lemma checkTimeLine_body_manifestPart:
  "checkTimeLine_body t e s = Some (f, s') \<Longrightarrow> manifestPart s' = manifestPart s"
  by (auto simp: checkTimeLine_body_def checkTimeLine_examine_def manifestPart_def Let_def
      split: option.splits if_splits)

lemma checkTimeLine_loop_manifestPart:
  "manifestPart (snd (checkTimeLine_loop t q acc)) = manifestPart (snd acc)"
proof (induction q arbitrary: acc)
  case Nil
  show ?case by (simp add: manifestPart_def)
next
  case (Cons e q)
  show ?case
  proof (cases "checkTimeLine_body t e (snd acc)")
    case None
    then show ?thesis by (simp add: manifestPart_def)
  next
    case (Some r)
    obtain f s' where r: "r = (f, s')" by (cases r)
    with Some Cons [of "(fst acc \<or> f, s')"] checkTimeLine_body_manifestPart [of t e "snd acc" f s']
    show ?thesis by simp
  qed
qed

lemma checkTimeLine_manifestPart:
  "manifestPart (snd (checkTimeLine t s)) = manifestPart s"
  by (simp add: checkTimeLine_def checkTimeLine_loop_manifestPart split: list.splits)

lemma notifications_manifestPart:
  "manifestPart (updateCheckinDocuments s) = manifestPart s"
  "manifestPart (updateActiveCollectionSchemeListeners s) = manifestPart s"
  by (simp_all add: manifestPart_def updateCheckinDocuments_def
      updateActiveCollectionSchemeListeners_def)

lemma doWork_pass_manifestPart:
  "manifestPart (snd (snd (doWork_pass t1 ct ini s))) =
     manifestPart (snd (if mProcessDecoderManifest s
                then processDecoderManifest (s\<lparr>mProcessDecoderManifest := False\<rparr>)
                else (False, s)))"
  by (simp add: doWork_pass_def Let_def notifications_manifestPart checkTimeLine_manifestPart
      processCollectionScheme_manifestPart)
    (simp add: manifestPart_def)

lemma doWork_pass_changed:
  "fst (doWork_pass t1 ct ini s) =
     fst (if mProcessDecoderManifest s
                then processDecoderManifest (s\<lparr>mProcessDecoderManifest := False\<rparr>)
                else (False, s))"
  by (simp add: doWork_pass_def Let_def)


text \<open>
  C5. When a pass processes a pending decoder manifest that builds: if its ID equals the
  active manifest ID, the manifest is dropped (\<open>processDecoderManifest\<close> returns false and
  changes nothing; after the pass the active ID and the persisted manifest are as before and
  \<open>decoderManifestChanged\<close> is not set); if it differs, the active ID becomes exactly the new
  ID, the manifest is handed to the persistence layer and \<open>decoderManifestChanged\<close> is set.
  After any single pass the active manifest ID is the prior one or the ID of the manifest
  that was received.
\<close>

theorem decoder_manifest_switch:
  "(mDecoderManifest s = Some dm \<and> buildManifest dm \<longrightarrow>
      (getID dm = mCurrentDecoderManifestID s \<longrightarrow> processDecoderManifest s = (False, s)) \<and>
      (getID dm \<noteq> mCurrentDecoderManifestID s \<longrightarrow>
         fst (processDecoderManifest s) \<and>
         mCurrentDecoderManifestID (snd (processDecoderManifest s)) = getID dm \<and>
         storedDecoderManifest (snd (processDecoderManifest s)) = Some dm)) \<and>
   (mProcessDecoderManifest s \<and> mDecoderManifest s = Some dm \<and> buildManifest dm \<longrightarrow>
      (getID dm = mCurrentDecoderManifestID s \<longrightarrow>
         \<not> fst (doWork_pass t1 ct ini s) \<and>
         mCurrentDecoderManifestID (snd (snd (doWork_pass t1 ct ini s))) = mCurrentDecoderManifestID s \<and>
         storedDecoderManifest (snd (snd (doWork_pass t1 ct ini s))) = storedDecoderManifest s) \<and>
      (getID dm \<noteq> mCurrentDecoderManifestID s \<longrightarrow>
         fst (doWork_pass t1 ct ini s) \<and>
         mCurrentDecoderManifestID (snd (snd (doWork_pass t1 ct ini s))) = getID dm \<and>
         storedDecoderManifest (snd (snd (doWork_pass t1 ct ini s))) = Some dm)) \<and>
   (mCurrentDecoderManifestID (snd (snd (doWork_pass t1 ct ini s))) = mCurrentDecoderManifestID s \<or>
    (\<exists>dm'. mDecoderManifest s = Some dm' \<and>
       mCurrentDecoderManifestID (snd (snd (doWork_pass t1 ct ini s))) = getID dm'))"
proof -
  let ?r = "if mProcessDecoderManifest s
                then processDecoderManifest (s\<lparr>mProcessDecoderManifest := False\<rparr>)
                else (False, s)"
  have part: "manifestPart (snd (snd (doWork_pass t1 ct ini s))) = manifestPart (snd ?r)"
    by (rule doWork_pass_manifestPart)
  have chg: "fst (doWork_pass t1 ct ini s) = fst ?r"
    by (rule doWork_pass_changed)
  have a: "mDecoderManifest s = Some dm \<and> buildManifest dm \<longrightarrow>
      (getID dm = mCurrentDecoderManifestID s \<longrightarrow> processDecoderManifest s = (False, s)) \<and>
      (getID dm \<noteq> mCurrentDecoderManifestID s \<longrightarrow>
         fst (processDecoderManifest s) \<and>
         mCurrentDecoderManifestID (snd (processDecoderManifest s)) = getID dm \<and>
         storedDecoderManifest (snd (processDecoderManifest s)) = Some dm)"
    by (simp add: processDecoderManifest_def Let_def store_def)
  have b: "mProcessDecoderManifest s \<and> mDecoderManifest s = Some dm \<and> buildManifest dm \<longrightarrow>
      (getID dm = mCurrentDecoderManifestID s \<longrightarrow>
         \<not> fst ?r \<and> manifestPart (snd ?r) = manifestPart s) \<and>
      (getID dm \<noteq> mCurrentDecoderManifestID s \<longrightarrow>
         fst ?r \<and> fst (manifestPart (snd ?r)) = getID dm \<and>
         snd (snd (manifestPart (snd ?r))) = Some dm)"
    by (simp add: processDecoderManifest_def Let_def store_def manifestPart_def)
  have c: "fst (manifestPart (snd ?r)) = mCurrentDecoderManifestID s \<or>
    (\<exists>dm'. mDecoderManifest s = Some dm' \<and> fst (manifestPart (snd ?r)) = getID dm')"
    by (simp add: processDecoderManifest_def Let_def store_def manifestPart_def
        split: option.splits)
  from a b c show ?thesis
    unfolding chg part [symmetric] by (simp add: manifestPart_def)
qed

theorem decoder_manifest_switch_witness:
  "fst (doWork_pass 0 0 False
      ((manager [] [] [] ''DM1'' (Some \<lparr>buildManifest = True, getID = ''DM2''\<rparr>) None)
         \<lparr>mProcessDecoderManifest := True\<rparr>)) \<and>
   mCurrentDecoderManifestID (snd (snd (doWork_pass 0 0 False
      ((manager [] [] [] ''DM1'' (Some \<lparr>buildManifest = True, getID = ''DM2''\<rparr>) None)
         \<lparr>mProcessDecoderManifest := True\<rparr>)))) = ''DM2'' \<and>
   processDecoderManifest
      (manager [] [] [] ''DM1'' (Some \<lparr>buildManifest = True, getID = ''DM1''\<rparr>) None)
     = (False, manager [] [] [] ''DM1'' (Some \<lparr>buildManifest = True, getID = ''DM1''\<rparr>) None)"
  using decoder_manifest_switch [of
      "(manager [] [] [] ''DM1'' (Some \<lparr>buildManifest = True, getID = ''DM2''\<rparr>) None)
         \<lparr>mProcessDecoderManifest := True\<rparr>"
      "\<lparr>buildManifest = True, getID = ''DM2''\<rparr>" 0 0 False]
    decoder_manifest_switch [of
      "manager [] [] [] ''DM1'' (Some \<lparr>buildManifest = True, getID = ''DM1''\<rparr>) None"
      "\<lparr>buildManifest = True, getID = ''DM1''\<rparr>" 0 0 False]
  by (simp add: manager_def)


subsection \<open>Active collection schemes\<close>

lemma isCollectionSchemesInSyncWithDm_iff:
  "isCollectionSchemesInSyncWithDm s \<longleftrightarrow>
     (\<forall>cs \<in> snd ` set (mEnabledCollectionSchemeMap s) \<union> snd ` set (mIdleCollectionSchemeMap s).
         getDecoderManifestID cs = mCurrentDecoderManifestID s)"
  by (auto simp: isCollectionSchemesInSyncWithDm_def list_all_iff)


text \<open>
  C2 (as amended). The set of active collection schemes published for the extraction is all
  or nothing: if every scheme of the Enabled map and of the Idle map records the current
  decoder-manifest ID, all Enabled schemes are published; if one scheme of either map records
  another ID, nothing is published. So no out-of-sync scheme is ever published, and the
  publication leaves the Enabled and the Idle map as they are. A pass of \<open>doWork\<close> publishes
  at most once, from the maps and the manifest ID the manager holds at the end of the pass.
\<close>

theorem active_schemes_all_or_nothing:
  "((\<forall>cs \<in> snd ` set (mEnabledCollectionSchemeMap s) \<union> snd ` set (mIdleCollectionSchemeMap s).
        getDecoderManifestID cs = mCurrentDecoderManifestID s) \<longrightarrow>
      activeCollectionSchemes s = map snd (mEnabledCollectionSchemeMap s)) \<and>
   ((\<exists>cs \<in> snd ` set (mEnabledCollectionSchemeMap s) \<union> snd ` set (mIdleCollectionSchemeMap s).
        getDecoderManifestID cs \<noteq> mCurrentDecoderManifestID s) \<longrightarrow>
      activeCollectionSchemes s = []) \<and>
   (\<forall>cs \<in> set (activeCollectionSchemes s).
        getDecoderManifestID cs = mCurrentDecoderManifestID s) \<and>
   hd (activeCollectionSchemesNotified (updateActiveCollectionSchemeListeners s)) =
     activeCollectionSchemes s \<and>
   mEnabledCollectionSchemeMap (updateActiveCollectionSchemeListeners s) =
     mEnabledCollectionSchemeMap s \<and>
   mIdleCollectionSchemeMap (updateActiveCollectionSchemeListeners s) =
     mIdleCollectionSchemeMap s \<and>
   (activeCollectionSchemesNotified (snd (snd (doWork_pass t1 ct ini s))) =
      activeCollectionSchemesNotified s \<or>
    activeCollectionSchemesNotified (snd (snd (doWork_pass t1 ct ini s))) =
      activeCollectionSchemes (snd (snd (doWork_pass t1 ct ini s))) #
        activeCollectionSchemesNotified s)"
proof -
  have "\<forall>cs \<in> set (activeCollectionSchemes s).
        getDecoderManifestID cs = mCurrentDecoderManifestID s"
    by (auto simp: activeCollectionSchemes_def isCollectionSchemesInSyncWithDm_iff)
  moreover have "activeCollectionSchemesNotified (snd (snd (doWork_pass t1 ct ini s))) =
      activeCollectionSchemesNotified s \<or>
    activeCollectionSchemesNotified (snd (snd (doWork_pass t1 ct ini s))) =
      activeCollectionSchemes (snd (snd (doWork_pass t1 ct ini s))) #
        activeCollectionSchemesNotified s"
    using doWork_pass_notifications [of t1 ct ini s] by (auto split: if_splits)
  ultimately show ?thesis
    using isCollectionSchemesInSyncWithDm_iff [of s]
    by (auto simp: activeCollectionSchemes_def updateActiveCollectionSchemeListeners_def)
qed

theorem active_schemes_all_or_nothing_witness:
  "activeCollectionSchemes (manager [(''P1'', scheme ''P1'' ''DM1'' 1000 5000)]
                 [(''P2'', scheme ''P2'' ''DM1'' 9000 9500)] [] ''DM1'' None None)
     = [scheme ''P1'' ''DM1'' 1000 5000] \<and>
   activeCollectionSchemes (manager [(''P1'', scheme ''P1'' ''DM1'' 1000 5000)]
                 [(''P2'', scheme ''P2'' ''DM2'' 9000 9500)] [] ''DM1'' None None) = []"
  using active_schemes_all_or_nothing [of "manager [(''P1'', scheme ''P1'' ''DM1'' 1000 5000)]
                 [(''P2'', scheme ''P2'' ''DM1'' 9000 9500)] [] ''DM1'' None None" 0 0 False]
    active_schemes_all_or_nothing [of "manager [(''P1'', scheme ''P1'' ''DM1'' 1000 5000)]
                 [(''P2'', scheme ''P2'' ''DM2'' 9000 9500)] [] ''DM1'' None None" 0 0 False]
  by (simp add: manager_def scheme_def)

text \<open>
  With an in-sync scheme P1 and an out-of-sync scheme P2 in the Enabled map, nothing is
  published, where the per-scheme reading publishes P1.
\<close>

theorem active_schemes_per_scheme_counterexample:
  "hd (activeCollectionSchemesNotified (updateActiveCollectionSchemeListeners
      (manager [(''P1'', scheme ''P1'' ''DM1'' 1000 5000), (''P2'', scheme ''P2'' ''DM2'' 1000 5000)]
         [] [] ''DM1'' None None)))
   \<noteq> activeCollectionSchemes_spec
      (manager [(''P1'', scheme ''P1'' ''DM1'' 1000 5000), (''P2'', scheme ''P2'' ''DM2'' 1000 5000)]
         [] [] ''DM1'' None None)"
  by (simp add: updateActiveCollectionSchemeListeners_def activeCollectionSchemes_def
      isCollectionSchemesInSyncWithDm_def activeCollectionSchemes_spec_def manager_def scheme_def)

subsection \<open>Rebuilding the maps\<close>

lemma rebuildStep_enabled:
  "map_of (mEnabledCollectionSchemeMap (snd (rebuildStep t c acc))) k =
     (if getCollectionSchemeID c = k \<and> startsEnabled t c then Some c
      else map_of (mEnabledCollectionSchemeMap (snd acc)) k)"
  by (auto simp: rebuildStep_def Let_def startsEnabled_def update_conv' not_less)

lemma rebuildStep_idle:
  "map_of (mIdleCollectionSchemeMap (snd (rebuildStep t c acc))) k =
     (if getCollectionSchemeID c = k \<and> startsIdle t c then Some c
      else map_of (mIdleCollectionSchemeMap (snd acc)) k)"
  by (auto simp: rebuildStep_def Let_def startsIdle_def update_conv' not_less)

lemma rebuildStep_ret:
  "fst (rebuildStep t c acc) \<longleftrightarrow> fst acc \<or> startsEnabled t c"
  by (auto simp: rebuildStep_def Let_def startsEnabled_def not_less)

lemma fold_rebuildStep_ret:
  "fst (fold (rebuildStep t) l acc) \<longleftrightarrow> fst acc \<or> (\<exists>cs \<in> set l. startsEnabled t cs)"
  by (induction l arbitrary: acc) (auto simp: rebuildStep_ret)

lemma fold_rebuildStep_idle_exact:
  "map_of (mIdleCollectionSchemeMap (snd (fold (rebuildStep t) l acc))) k =
     (case filter (\<lambda>c. getCollectionSchemeID c = k \<and> startsIdle t c) l of
        [] \<Rightarrow> map_of (mIdleCollectionSchemeMap (snd acc)) k
      | x # xs \<Rightarrow> Some (last (x # xs)))"
  by (induction l arbitrary: acc) (auto simp: rebuildStep_idle split: list.splits)

lemma fold_rebuildStep_enabled_exact:
  "map_of (mEnabledCollectionSchemeMap (snd (fold (rebuildStep t) l acc))) k =
     (case filter (\<lambda>c. getCollectionSchemeID c = k \<and> startsEnabled t c) l of
        [] \<Rightarrow> map_of (mEnabledCollectionSchemeMap (snd acc)) k
      | x # xs \<Rightarrow> Some (last (x # xs)))"
  by (induction l arbitrary: acc) (auto simp: rebuildStep_enabled split: list.splits)

lemma last_of_filter_Some:
  "(case filter P l of [] \<Rightarrow> None | x # xs \<Rightarrow> Some (last (x # xs))) = Some c \<Longrightarrow>
   c \<in> set l \<and> P c"
proof -
  assume a: "(case filter P l of [] \<Rightarrow> None | x # xs \<Rightarrow> Some (last (x # xs))) = Some c"
  then have ne: "filter P l \<noteq> []" and c: "c = last (filter P l)"
    by (auto split: list.splits)
  from last_in_set [OF ne] c have "c \<in> set (filter P l)" by simp
  then show ?thesis by simp
qed

lemma last_of_filter_None:
  "(case filter P l of [] \<Rightarrow> None | x # xs \<Rightarrow> Some (last (x # xs))) = None \<longleftrightarrow>
   (\<forall>c \<in> set l. \<not> P c)"
proof -
  have "(case filter P l of [] \<Rightarrow> None | x # xs \<Rightarrow> Some (last (x # xs))) = None \<longleftrightarrow>
      filter P l = []"
    by (simp split: list.splits)
  then show ?thesis by (simp add: filter_empty_conv)
qed

lemma last_of_filter_unique:
  assumes "cs \<in> set l" "P cs" "\<forall>x \<in> set l. P x \<longrightarrow> x = cs"
  shows "(case filter P l of [] \<Rightarrow> None | x # xs \<Rightarrow> Some (last (x # xs))) = Some cs"
proof -
  from assms(1,2) have ne: "filter P l \<noteq> []" by (auto simp: filter_empty_conv)
  from last_in_set [OF ne] assms(3) have "last (filter P l) = cs" by auto
  with ne show ?thesis by (auto split: list.splits)
qed

text \<open>
  \<open>processCollectionScheme\<close> rebuilds only when both maps are empty; otherwise it updates.
\<close>

lemma processCollectionScheme_context:
  "mCollectionSchemeList s = Some l \<Longrightarrow> buildList l \<Longrightarrow>
   processCollectionScheme t s =
     (if mEnabledCollectionSchemeMap s = [] \<and> mIdleCollectionSchemeMap s = []
      then rebuildMapsandTimeLine t (store COLLECTION_SCHEME_LIST s)
      else updateMapsandTimeLine t (store COLLECTION_SCHEME_LIST s))"
  by (auto simp: processCollectionScheme_def isCollectionSchemeLoaded_def store_def Let_def)

text \<open>
  C4. When the maps are rebuilt at time \<open>now\<close> from a scheme list (the maps are empty, as
  they are when \<open>processCollectionScheme\<close> rebuilds, and every scheme starts before it
  expires), for every scheme of the list: if \<open>now < start\<close>, its ID is in the Idle map, which
  holds for it a scheme of the list with that ID that has not started, and the scheme is not
  in the Enabled map; if \<open>start \<le> now < expiry\<close>, its ID is in the Enabled map, which holds
  for it a scheme of the list with that ID that is running, and the scheme is not in the
  Idle map; if \<open>now \<ge> expiry\<close>, the scheme is in neither map, and its ID is in neither map
  when every scheme of the list with that ID has expired. A scheme whose ID is not repeated
  in the list is itself the one stored: under its ID the Idle map holds it and the Enabled
  map nothing, or the Enabled map holds it and the Idle map nothing, or both hold nothing.
  The function returns true exactly when some scheme of the list is running at \<open>now\<close>, which
  is exactly when the Enabled map is not empty. The two maps hold nothing else: every scheme
  in the Idle map is a scheme of the list, under its ID, with \<open>now < start\<close>, and every
  scheme in the Enabled map one with \<open>start \<le> now < expiry\<close>; under each ID a map holds the
  last scheme of the list with that ID that qualifies. Nothing is assumed of the IDs of the
  list.
\<close>

theorem rebuild_places_schemes:
  assumes list: "mCollectionSchemeList s = Some l"
    and empty: "mEnabledCollectionSchemeMap s = []" "mIdleCollectionSchemeMap s = []"
    and inv: "\<forall>cs \<in> set (getCollectionSchemes l). getStartTime cs < getExpiryTime cs"
  shows "(\<forall>cs \<in> set (getCollectionSchemes l).
       (now < getStartTime cs \<longrightarrow>
          (\<exists>c \<in> set (getCollectionSchemes l).
              map_of (mIdleCollectionSchemeMap (snd (rebuildMapsandTimeLine now s))) (getCollectionSchemeID cs) = Some c \<and>
              getCollectionSchemeID c = getCollectionSchemeID cs \<and> now < getStartTime c) \<and>
          map_of (mEnabledCollectionSchemeMap (snd (rebuildMapsandTimeLine now s))) (getCollectionSchemeID cs) \<noteq> Some cs) \<and>
       (getStartTime cs \<le> now \<and> now < getExpiryTime cs \<longrightarrow>
          (\<exists>c \<in> set (getCollectionSchemes l).
              map_of (mEnabledCollectionSchemeMap (snd (rebuildMapsandTimeLine now s))) (getCollectionSchemeID cs) = Some c \<and>
              getCollectionSchemeID c = getCollectionSchemeID cs \<and>
              getStartTime c \<le> now \<and> now < getExpiryTime c) \<and>
          map_of (mIdleCollectionSchemeMap (snd (rebuildMapsandTimeLine now s))) (getCollectionSchemeID cs) \<noteq> Some cs) \<and>
       (getExpiryTime cs \<le> now \<longrightarrow>
          map_of (mEnabledCollectionSchemeMap (snd (rebuildMapsandTimeLine now s))) (getCollectionSchemeID cs) \<noteq> Some cs \<and>
          map_of (mIdleCollectionSchemeMap (snd (rebuildMapsandTimeLine now s))) (getCollectionSchemeID cs) \<noteq> Some cs) \<and>
       ((\<forall>x \<in> set (getCollectionSchemes l).
            getCollectionSchemeID x = getCollectionSchemeID cs \<longrightarrow> getExpiryTime x \<le> now) \<longrightarrow>
          map_of (mEnabledCollectionSchemeMap (snd (rebuildMapsandTimeLine now s))) (getCollectionSchemeID cs) = None \<and>
          map_of (mIdleCollectionSchemeMap (snd (rebuildMapsandTimeLine now s))) (getCollectionSchemeID cs) = None)) \<and>
    (\<forall>cs \<in> set (getCollectionSchemes l).
       (\<forall>x \<in> set (getCollectionSchemes l). getCollectionSchemeID x = getCollectionSchemeID cs \<longrightarrow> x = cs) \<longrightarrow>
       (now < getStartTime cs \<longrightarrow>
          map_of (mIdleCollectionSchemeMap (snd (rebuildMapsandTimeLine now s))) (getCollectionSchemeID cs) = Some cs \<and>
          map_of (mEnabledCollectionSchemeMap (snd (rebuildMapsandTimeLine now s))) (getCollectionSchemeID cs) = None) \<and>
       (getStartTime cs \<le> now \<and> now < getExpiryTime cs \<longrightarrow>
          map_of (mEnabledCollectionSchemeMap (snd (rebuildMapsandTimeLine now s))) (getCollectionSchemeID cs) = Some cs \<and>
          map_of (mIdleCollectionSchemeMap (snd (rebuildMapsandTimeLine now s))) (getCollectionSchemeID cs) = None) \<and>
       (getExpiryTime cs \<le> now \<longrightarrow>
          map_of (mEnabledCollectionSchemeMap (snd (rebuildMapsandTimeLine now s))) (getCollectionSchemeID cs) = None \<and>
          map_of (mIdleCollectionSchemeMap (snd (rebuildMapsandTimeLine now s))) (getCollectionSchemeID cs) = None)) \<and>
    ((fst (rebuildMapsandTimeLine now s)) \<longleftrightarrow>
       (\<exists>cs \<in> set (getCollectionSchemes l). getStartTime cs \<le> now \<and> now < getExpiryTime cs)) \<and>
    ((fst (rebuildMapsandTimeLine now s)) \<longleftrightarrow>
       mEnabledCollectionSchemeMap (snd (rebuildMapsandTimeLine now s)) \<noteq> []) \<and>
    (\<forall>k c. map_of (mIdleCollectionSchemeMap (snd (rebuildMapsandTimeLine now s))) k = Some c \<longrightarrow>
       c \<in> set (getCollectionSchemes l) \<and> getCollectionSchemeID c = k \<and> now < getStartTime c) \<and>
    (\<forall>k c. map_of (mEnabledCollectionSchemeMap (snd (rebuildMapsandTimeLine now s))) k = Some c \<longrightarrow>
       c \<in> set (getCollectionSchemes l) \<and> getCollectionSchemeID c = k \<and>
       getStartTime c \<le> now \<and> now < getExpiryTime c) \<and>
    (\<forall>k. map_of (mIdleCollectionSchemeMap (snd (rebuildMapsandTimeLine now s))) k =
       (case filter (\<lambda>c. getCollectionSchemeID c = k \<and> now < getStartTime c) (getCollectionSchemes l) of
          [] \<Rightarrow> None | x # xs \<Rightarrow> Some (last (x # xs)))) \<and>
    (\<forall>k. map_of (mEnabledCollectionSchemeMap (snd (rebuildMapsandTimeLine now s))) k =
       (case filter (\<lambda>c. getCollectionSchemeID c = k \<and> getStartTime c \<le> now \<and>
                         now < getExpiryTime c) (getCollectionSchemes l) of
          [] \<Rightarrow> None | x # xs \<Rightarrow> Some (last (x # xs))))"
proof -
  let ?l = "getCollectionSchemes l"
  let ?r = "fold (rebuildStep now) ?l (False, s)"
  let ?PI = "\<lambda>k c. getCollectionSchemeID c = k \<and> now < getStartTime c"
  let ?PE = "\<lambda>k c. getCollectionSchemeID c = k \<and> getStartTime c \<le> now \<and> now < getExpiryTime c"
  have r: "rebuildMapsandTimeLine now s = ?r"
    using list by (simp add: rebuildMapsandTimeLine_def)
  have idl: "map_of (mIdleCollectionSchemeMap (snd ?r)) k =
      (case filter (?PI k) ?l of [] \<Rightarrow> None | x # xs \<Rightarrow> Some (last (x # xs)))" for k
    unfolding fold_rebuildStep_idle_exact startsIdle_def
    using empty by (simp cong: list.case_cong)
  have en: "map_of (mEnabledCollectionSchemeMap (snd ?r)) k =
      (case filter (?PE k) ?l of [] \<Rightarrow> None | x # xs \<Rightarrow> Some (last (x # xs)))" for k
    unfolding fold_rebuildStep_enabled_exact startsEnabled_def
    using empty by (simp cong: list.case_cong)
  have idl_some: "c \<in> set ?l \<and> ?PI k c"
    if "map_of (mIdleCollectionSchemeMap (snd ?r)) k = Some c" for k c
    using that last_of_filter_Some [of "?PI k" ?l c] unfolding idl by blast
  have en_some: "c \<in> set ?l \<and> ?PE k c"
    if "map_of (mEnabledCollectionSchemeMap (snd ?r)) k = Some c" for k c
    using that last_of_filter_Some [of "?PE k" ?l c] unfolding en by blast
  have idl_none: "map_of (mIdleCollectionSchemeMap (snd ?r)) k = None \<longleftrightarrow>
      (\<forall>c \<in> set ?l. \<not> ?PI k c)" for k
    unfolding idl by (rule last_of_filter_None)
  have en_none: "map_of (mEnabledCollectionSchemeMap (snd ?r)) k = None \<longleftrightarrow>
      (\<forall>c \<in> set ?l. \<not> ?PE k c)" for k
    unfolding en by (rule last_of_filter_None)
  have idl_ex: "\<exists>c \<in> set ?l. map_of (mIdleCollectionSchemeMap (snd ?r))
        (getCollectionSchemeID cs) = Some c \<and>
        getCollectionSchemeID c = getCollectionSchemeID cs \<and> now < getStartTime c"
    if "cs \<in> set ?l" "now < getStartTime cs" for cs
  proof -
    from that idl_none [of "getCollectionSchemeID cs"]
    obtain c where c: "map_of (mIdleCollectionSchemeMap (snd ?r)) (getCollectionSchemeID cs) = Some c"
      by fastforce
    from idl_some [OF c] c show ?thesis by blast
  qed
  have en_ex: "\<exists>c \<in> set ?l. map_of (mEnabledCollectionSchemeMap (snd ?r))
        (getCollectionSchemeID cs) = Some c \<and>
        getCollectionSchemeID c = getCollectionSchemeID cs \<and>
        getStartTime c \<le> now \<and> now < getExpiryTime c"
    if "cs \<in> set ?l" "getStartTime cs \<le> now" "now < getExpiryTime cs" for cs
  proof -
    from that en_none [of "getCollectionSchemeID cs"]
    obtain c where c: "map_of (mEnabledCollectionSchemeMap (snd ?r)) (getCollectionSchemeID cs) = Some c"
      by fastforce
    from en_some [OF c] c show ?thesis by blast
  qed
  have idl_not: "map_of (mIdleCollectionSchemeMap (snd ?r)) k \<noteq> Some cs"
    if "getStartTime cs \<le> now" for k cs
    using idl_some [of k cs] that by auto
  have en_not: "map_of (mEnabledCollectionSchemeMap (snd ?r)) k \<noteq> Some cs"
    if "now < getStartTime cs \<or> getExpiryTime cs \<le> now" for k cs
    using en_some [of k cs] that by auto
  have started: "getStartTime cs \<le> now" if "cs \<in> set ?l" "getExpiryTime cs \<le> now" for cs
    using inv that by fastforce
  have idl_one: "map_of (mIdleCollectionSchemeMap (snd ?r)) (getCollectionSchemeID cs) = Some cs"
    if "cs \<in> set ?l" "now < getStartTime cs"
      "\<forall>x \<in> set ?l. getCollectionSchemeID x = getCollectionSchemeID cs \<longrightarrow> x = cs" for cs
    unfolding idl using that by (intro last_of_filter_unique) auto
  have en_one: "map_of (mEnabledCollectionSchemeMap (snd ?r)) (getCollectionSchemeID cs) = Some cs"
    if "cs \<in> set ?l" "getStartTime cs \<le> now" "now < getExpiryTime cs"
      "\<forall>x \<in> set ?l. getCollectionSchemeID x = getCollectionSchemeID cs \<longrightarrow> x = cs" for cs
    unfolding en using that by (intro last_of_filter_unique) auto
  have A: "(\<forall>cs \<in> set ?l.
       (now < getStartTime cs \<longrightarrow>
          (\<exists>c \<in> set ?l.
              map_of (mIdleCollectionSchemeMap (snd ?r)) (getCollectionSchemeID cs) = Some c \<and>
              getCollectionSchemeID c = getCollectionSchemeID cs \<and> now < getStartTime c) \<and>
          map_of (mEnabledCollectionSchemeMap (snd ?r)) (getCollectionSchemeID cs) \<noteq> Some cs) \<and>
       (getStartTime cs \<le> now \<and> now < getExpiryTime cs \<longrightarrow>
          (\<exists>c \<in> set ?l.
              map_of (mEnabledCollectionSchemeMap (snd ?r)) (getCollectionSchemeID cs) = Some c \<and>
              getCollectionSchemeID c = getCollectionSchemeID cs \<and>
              getStartTime c \<le> now \<and> now < getExpiryTime c) \<and>
          map_of (mIdleCollectionSchemeMap (snd ?r)) (getCollectionSchemeID cs) \<noteq> Some cs) \<and>
       (getExpiryTime cs \<le> now \<longrightarrow>
          map_of (mEnabledCollectionSchemeMap (snd ?r)) (getCollectionSchemeID cs) \<noteq> Some cs \<and>
          map_of (mIdleCollectionSchemeMap (snd ?r)) (getCollectionSchemeID cs) \<noteq> Some cs) \<and>
       ((\<forall>x \<in> set ?l.
            getCollectionSchemeID x = getCollectionSchemeID cs \<longrightarrow> getExpiryTime x \<le> now) \<longrightarrow>
          map_of (mEnabledCollectionSchemeMap (snd ?r)) (getCollectionSchemeID cs) = None \<and>
          map_of (mIdleCollectionSchemeMap (snd ?r)) (getCollectionSchemeID cs) = None))"
  proof (intro ballI conjI impI)
    fix cs
    assume cs: "cs \<in> set ?l"
    {
      assume "now < getStartTime cs"
      then show "\<exists>c \<in> set ?l. map_of (mIdleCollectionSchemeMap (snd ?r))
          (getCollectionSchemeID cs) = Some c \<and>
          getCollectionSchemeID c = getCollectionSchemeID cs \<and> now < getStartTime c"
        using idl_ex [OF cs] by blast
    }
    {
      assume "now < getStartTime cs"
      then show "map_of (mEnabledCollectionSchemeMap (snd ?r)) (getCollectionSchemeID cs) \<noteq> Some cs"
        by (intro en_not) simp
    }
    {
      assume "getStartTime cs \<le> now \<and> now < getExpiryTime cs"
      then show "\<exists>c \<in> set ?l. map_of (mEnabledCollectionSchemeMap (snd ?r))
          (getCollectionSchemeID cs) = Some c \<and>
          getCollectionSchemeID c = getCollectionSchemeID cs \<and>
          getStartTime c \<le> now \<and> now < getExpiryTime c"
        using en_ex [OF cs] by blast
    }
    {
      assume "getStartTime cs \<le> now \<and> now < getExpiryTime cs"
      then show "map_of (mIdleCollectionSchemeMap (snd ?r)) (getCollectionSchemeID cs) \<noteq> Some cs"
        by (intro idl_not) simp
    }
    {
      assume "getExpiryTime cs \<le> now"
      then show "map_of (mEnabledCollectionSchemeMap (snd ?r)) (getCollectionSchemeID cs) \<noteq> Some cs"
        by (intro en_not) simp
    }
    {
      assume "getExpiryTime cs \<le> now"
      then show "map_of (mIdleCollectionSchemeMap (snd ?r)) (getCollectionSchemeID cs) \<noteq> Some cs"
        using started [OF cs] by (intro idl_not) simp
    }
    {
      assume a: "\<forall>x \<in> set ?l.
          getCollectionSchemeID x = getCollectionSchemeID cs \<longrightarrow> getExpiryTime x \<le> now"
      then show "map_of (mEnabledCollectionSchemeMap (snd ?r)) (getCollectionSchemeID cs) = None"
        unfolding en_none by auto
    }
    {
      assume a: "\<forall>x \<in> set ?l.
          getCollectionSchemeID x = getCollectionSchemeID cs \<longrightarrow> getExpiryTime x \<le> now"
      have "\<not> now < getStartTime x"
        if "x \<in> set ?l" "getCollectionSchemeID x = getCollectionSchemeID cs" for x
        using a that started [of x] by auto
      then show "map_of (mIdleCollectionSchemeMap (snd ?r)) (getCollectionSchemeID cs) = None"
        unfolding idl_none by auto
    }
  qed
  have B: "(\<forall>cs \<in> set ?l.
       (\<forall>x \<in> set ?l. getCollectionSchemeID x = getCollectionSchemeID cs \<longrightarrow> x = cs) \<longrightarrow>
       (now < getStartTime cs \<longrightarrow>
          map_of (mIdleCollectionSchemeMap (snd ?r)) (getCollectionSchemeID cs) = Some cs \<and>
          map_of (mEnabledCollectionSchemeMap (snd ?r)) (getCollectionSchemeID cs) = None) \<and>
       (getStartTime cs \<le> now \<and> now < getExpiryTime cs \<longrightarrow>
          map_of (mEnabledCollectionSchemeMap (snd ?r)) (getCollectionSchemeID cs) = Some cs \<and>
          map_of (mIdleCollectionSchemeMap (snd ?r)) (getCollectionSchemeID cs) = None) \<and>
       (getExpiryTime cs \<le> now \<longrightarrow>
          map_of (mEnabledCollectionSchemeMap (snd ?r)) (getCollectionSchemeID cs) = None \<and>
          map_of (mIdleCollectionSchemeMap (snd ?r)) (getCollectionSchemeID cs) = None))"
  proof (intro ballI conjI impI)
    fix cs
    assume cs: "cs \<in> set ?l"
      and u: "\<forall>x \<in> set ?l. getCollectionSchemeID x = getCollectionSchemeID cs \<longrightarrow> x = cs"
    {
      assume "now < getStartTime cs"
      then show "map_of (mIdleCollectionSchemeMap (snd ?r)) (getCollectionSchemeID cs) = Some cs"
        using idl_one [OF cs _ u] by simp
    }
    {
      assume "now < getStartTime cs"
      then show "map_of (mEnabledCollectionSchemeMap (snd ?r)) (getCollectionSchemeID cs) = None"
        unfolding en_none using u by auto
    }
    {
      assume "getStartTime cs \<le> now \<and> now < getExpiryTime cs"
      then show "map_of (mEnabledCollectionSchemeMap (snd ?r)) (getCollectionSchemeID cs) = Some cs"
        using en_one [OF cs _ _ u] by simp
    }
    {
      assume "getStartTime cs \<le> now \<and> now < getExpiryTime cs"
      then show "map_of (mIdleCollectionSchemeMap (snd ?r)) (getCollectionSchemeID cs) = None"
        unfolding idl_none using u by auto
    }
    {
      assume "getExpiryTime cs \<le> now"
      then show "map_of (mEnabledCollectionSchemeMap (snd ?r)) (getCollectionSchemeID cs) = None"
        unfolding en_none using u by auto
    }
    {
      assume "getExpiryTime cs \<le> now"
      then show "map_of (mIdleCollectionSchemeMap (snd ?r)) (getCollectionSchemeID cs) = None"
        unfolding idl_none using u started [OF cs] by auto
    }
  qed
  have C: "(fst ?r \<longleftrightarrow>
       (\<exists>cs \<in> set ?l. getStartTime cs \<le> now \<and> now < getExpiryTime cs))"
    by (simp add: fold_rebuildStep_ret startsEnabled_def)
  have ne: "mEnabledCollectionSchemeMap (snd ?r) \<noteq> [] \<longleftrightarrow>
      (\<exists>k. map_of (mEnabledCollectionSchemeMap (snd ?r)) k \<noteq> None)"
    by (metis map_of_eq_empty_iff)
  have D: "(fst ?r \<longleftrightarrow>
       mEnabledCollectionSchemeMap (snd ?r) \<noteq> [])"
    unfolding C ne en_none by blast
  have E: "(\<forall>k c. map_of (mIdleCollectionSchemeMap (snd ?r)) k = Some c \<longrightarrow>
       c \<in> set ?l \<and> getCollectionSchemeID c = k \<and> now < getStartTime c)"
    using idl_some by blast
  have F: "(\<forall>k c. map_of (mEnabledCollectionSchemeMap (snd ?r)) k = Some c \<longrightarrow>
       c \<in> set ?l \<and> getCollectionSchemeID c = k \<and>
       getStartTime c \<le> now \<and> now < getExpiryTime c)"
    using en_some by blast
  have G: "(\<forall>k. map_of (mIdleCollectionSchemeMap (snd ?r)) k =
       (case filter (\<lambda>c. getCollectionSchemeID c = k \<and> now < getStartTime c) ?l of
          [] \<Rightarrow> None | x # xs \<Rightarrow> Some (last (x # xs))))"
    using idl by blast
  have H: "(\<forall>k. map_of (mEnabledCollectionSchemeMap (snd ?r)) k =
       (case filter (\<lambda>c. getCollectionSchemeID c = k \<and> getStartTime c \<le> now \<and>
                         now < getExpiryTime c) ?l of
          [] \<Rightarrow> None | x # xs \<Rightarrow> Some (last (x # xs))))"
    using en by blast
  from A B C D E F G H show ?thesis
    unfolding r by (intro conjI)
qed



theorem rebuild_places_schemes_witness:
  "map_of (mEnabledCollectionSchemeMap (snd (rebuildMapsandTimeLine 3000
       (manager [] [] [] ''DM1'' None (Some exampleList))))) ''P1''
     = Some (scheme ''P1'' ''DM1'' 1000 5000) \<and>
   map_of (mIdleCollectionSchemeMap (snd (rebuildMapsandTimeLine 3000
       (manager [] [] [] ''DM1'' None (Some exampleList))))) ''P2''
     = Some (scheme ''P2'' ''DM1'' 4000 9000) \<and>
   map_of (mEnabledCollectionSchemeMap (snd (rebuildMapsandTimeLine 3000
       (manager [] [] [] ''DM1'' None (Some exampleList))))) ''P3'' = None \<and>
   map_of (mIdleCollectionSchemeMap (snd (rebuildMapsandTimeLine 3000
       (manager [] [] [] ''DM1'' None (Some exampleList))))) ''P3'' = None \<and>
   fst (rebuildMapsandTimeLine 3000 (manager [] [] [] ''DM1'' None (Some exampleList))) \<and>
   map_of (mEnabledCollectionSchemeMap (snd (rebuildMapsandTimeLine 3000
       (manager [] [] [] ''DM1'' None (Some repeatedList))))) ''P1''
     = Some (scheme ''P1'' ''DM1'' 1000 5000) \<and>
   map_of (mIdleCollectionSchemeMap (snd (rebuildMapsandTimeLine 3000
       (manager [] [] [] ''DM1'' None (Some repeatedList))))) ''P1''
     = Some (scheme ''P1'' ''DM1'' 4000 9000)"
proof -
  have h1: "mCollectionSchemeList (manager [] [] [] ''DM1'' None (Some exampleList))
      = Some exampleList"
    by (simp add: manager_def)
  have h2: "mEnabledCollectionSchemeMap (manager [] [] [] ''DM1'' None (Some exampleList)) = []"
    by (simp add: manager_def)
  have h3: "mIdleCollectionSchemeMap (manager [] [] [] ''DM1'' None (Some exampleList)) = []"
    by (simp add: manager_def)
  have h4: "\<forall>cs \<in> set (getCollectionSchemes exampleList). getStartTime cs < getExpiryTime cs"
    by (simp add: exampleList_def scheme_def)
  have g1: "mCollectionSchemeList (manager [] [] [] ''DM1'' None (Some repeatedList))
      = Some repeatedList"
    by (simp add: manager_def)
  have g2: "mEnabledCollectionSchemeMap (manager [] [] [] ''DM1'' None (Some repeatedList)) = []"
    by (simp add: manager_def)
  have g3: "mIdleCollectionSchemeMap (manager [] [] [] ''DM1'' None (Some repeatedList)) = []"
    by (simp add: manager_def)
  have g4: "\<forall>cs \<in> set (getCollectionSchemes repeatedList). getStartTime cs < getExpiryTime cs"
    by (simp add: repeatedList_def scheme_def)
  note t = rebuild_places_schemes [OF h1 h2 h3 h4, of 3000]
  note u = rebuild_places_schemes [OF g1 g2 g3 g4, of 3000]
  from t [THEN conjunct2, THEN conjunct1]
  have a: "map_of (mEnabledCollectionSchemeMap (snd (rebuildMapsandTimeLine 3000
       (manager [] [] [] ''DM1'' None (Some exampleList))))) ''P1''
     = Some (scheme ''P1'' ''DM1'' 1000 5000) \<and>
   map_of (mIdleCollectionSchemeMap (snd (rebuildMapsandTimeLine 3000
       (manager [] [] [] ''DM1'' None (Some exampleList))))) ''P2''
     = Some (scheme ''P2'' ''DM1'' 4000 9000) \<and>
   map_of (mEnabledCollectionSchemeMap (snd (rebuildMapsandTimeLine 3000
       (manager [] [] [] ''DM1'' None (Some exampleList))))) ''P3'' = None \<and>
   map_of (mIdleCollectionSchemeMap (snd (rebuildMapsandTimeLine 3000
       (manager [] [] [] ''DM1'' None (Some exampleList))))) ''P3'' = None"
    by (simp add: exampleList_def scheme_def)
  from t [THEN conjunct2, THEN conjunct2, THEN conjunct1]
  have b: "fst (rebuildMapsandTimeLine 3000 (manager [] [] [] ''DM1'' None (Some exampleList)))"
    by (simp add: exampleList_def scheme_def)
  from u [THEN conjunct1]
  have c: "map_of (mEnabledCollectionSchemeMap (snd (rebuildMapsandTimeLine 3000
       (manager [] [] [] ''DM1'' None (Some repeatedList))))) ''P1''
     = Some (scheme ''P1'' ''DM1'' 1000 5000) \<and>
   map_of (mIdleCollectionSchemeMap (snd (rebuildMapsandTimeLine 3000
       (manager [] [] [] ''DM1'' None (Some repeatedList))))) ''P1''
     = Some (scheme ''P1'' ''DM1'' 4000 9000)"
    by (simp add: repeatedList_def scheme_def)
  from a b c show ?thesis by blast
qed

subsection \<open>The Timeline\<close>

lemma checkTimeLine_body_stale:
  "checkTimeLine_body t e s = Some (f, s') \<Longrightarrow> \<not> entryMatches e s \<Longrightarrow> s' = s \<and> \<not> f"
  by (auto simp: checkTimeLine_body_def checkTimeLine_examine_def entryMatches_def Let_def
      split: option.splits if_splits)

lemma checkTimeLine_body_due:
  "checkTimeLine_body t e s = Some (f, s') \<Longrightarrow> entryMatches e s \<Longrightarrow> f \<and> fst e \<le> t"
  by (auto simp: checkTimeLine_body_def checkTimeLine_examine_def entryMatches_def Let_def
      split: option.splits if_splits)

lemma checkTimeLine_body_flip:
  "checkTimeLine_body t e s = Some (f, s') \<Longrightarrow> entryMatches e s \<Longrightarrow>
   (case map_of (mEnabledCollectionSchemeMap s) (snd e) of
      Some cs \<Rightarrow> map_of (mEnabledCollectionSchemeMap s') (snd e) = None \<and>
                 mIdleCollectionSchemeMap s' = mIdleCollectionSchemeMap s
    | None \<Rightarrow> map_of (mEnabledCollectionSchemeMap s') (snd e) =
                 map_of (mIdleCollectionSchemeMap s) (snd e) \<and>
              map_of (mIdleCollectionSchemeMap s') (snd e) = None)"
  by (auto simp: checkTimeLine_body_def checkTimeLine_examine_def entryMatches_def Let_def
      update_conv' delete_conv' split: option.splits if_splits)


lemma checkTimeLine_pops_sound:
  "(e, s1, s2) \<in> set (checkTimeLine_pops t q s) \<Longrightarrow>
   \<exists>f. checkTimeLine_body t e s1 = Some (f, s2)"
proof (induction q arbitrary: s)
  case Nil
  then show ?case by simp
next
  case (Cons a q)
  then show ?case
    by (cases "checkTimeLine_body t a s") auto
qed

lemma checkTimeLine_loop_pops:
  "q = map fst (checkTimeLine_pops t q s) @ mTimeLine (snd (checkTimeLine_loop t q (r, s))) \<and>
   snd (checkTimeLine_loop t q (r, s)) =
     (afterPops s (checkTimeLine_pops t q s))
       \<lparr>mTimeLine := drop (length (checkTimeLine_pops t q s)) q\<rparr>"
proof (induction q arbitrary: r s)
  case Nil
  show ?case by (simp add: afterPops_def)
next
  case (Cons a q)
  show ?case
  proof (cases "checkTimeLine_body t a s")
    case None
    then show ?thesis by (simp add: afterPops_def)
  next
    case (Some x)
    obtain f s' where x: "x = (f, s')" by (cases x)
    from Cons [where r = "r \<or> f" and s = s'] Some x show ?thesis
      by (auto simp: afterPops_def)
  qed
qed

lemma checkTimeLine_trace_link:
  "mTimeLine s = map fst (checkTimeLine_trace t s) @ mTimeLine (snd (checkTimeLine t s)) \<and>
   snd (checkTimeLine t s) =
     (afterPops s (checkTimeLine_trace t s))
       \<lparr>mTimeLine := drop (length (checkTimeLine_trace t s)) (mTimeLine s)\<rparr>"
proof (cases "mTimeLine s")
  case Nil
  then show ?thesis by (simp add: checkTimeLine_def checkTimeLine_trace_def afterPops_def)
next
  case (Cons a q)
  show ?thesis
  proof (cases "t < fst a")
    case True
    with Cons show ?thesis
      by (simp add: checkTimeLine_def checkTimeLine_trace_def afterPops_def)
  next
    case False
    have c: "checkTimeLine t s = checkTimeLine_loop t (mTimeLine s) (False, s)"
      using Cons False by (simp add: checkTimeLine_def)
    have p: "checkTimeLine_trace t s = checkTimeLine_pops t (mTimeLine s) s"
      using Cons False by (simp add: checkTimeLine_trace_def)
    show ?thesis
      unfolding c p by (rule checkTimeLine_loop_pops)
  qed
qed

lemma checkTimeLine_trace_sound:
  "(e, s1, s2) \<in> set (checkTimeLine_trace t s) \<Longrightarrow>
   \<exists>f. checkTimeLine_body t e s1 = Some (f, s2)"
  by (auto simp: checkTimeLine_trace_def split: list.splits if_splits
      dest: checkTimeLine_pops_sound)

lemma checkTimeLine_pops_chain:
  "(checkTimeLine_pops t q s \<noteq> [] \<longrightarrow> fst (snd (hd (checkTimeLine_pops t q s))) = s) \<and>
   (\<forall>i. Suc i < length (checkTimeLine_pops t q s) \<longrightarrow>
      fst (snd (checkTimeLine_pops t q s ! Suc i)) = snd (snd (checkTimeLine_pops t q s ! i)))"
proof (induction q arbitrary: s)
  case Nil
  show ?case by simp
next
  case (Cons a q)
  show ?case
  proof (cases "checkTimeLine_body t a s")
    case None
    then show ?thesis by simp
  next
    case (Some x)
    obtain f s' where x: "x = (f, s')" by (cases x)
    have p: "checkTimeLine_pops t (a # q) s = (a, s, s') # checkTimeLine_pops t q s'"
      using Some x by simp
    have "fst (snd (((a, s, s') # checkTimeLine_pops t q s') ! Suc i)) =
          snd (snd (((a, s, s') # checkTimeLine_pops t q s') ! i))"
      if "Suc i < length ((a, s, s') # checkTimeLine_pops t q s')" for i
    proof (cases i)
      case 0
      with that Cons [of s'] show ?thesis by (simp add: hd_conv_nth)
    next
      case (Suc j)
      with that Cons [of s'] show ?thesis by simp
    qed
    then show ?thesis unfolding p by simp
  qed
qed

lemma checkTimeLine_trace_chain:
  "(checkTimeLine_trace t s \<noteq> [] \<longrightarrow> fst (snd (hd (checkTimeLine_trace t s))) = s) \<and>
   (\<forall>i. Suc i < length (checkTimeLine_trace t s) \<longrightarrow>
      fst (snd (checkTimeLine_trace t s ! Suc i)) = snd (snd (checkTimeLine_trace t s ! i)))"
proof (cases "checkTimeLine_trace t s = checkTimeLine_pops t (mTimeLine s) s")
  case True
  then show ?thesis using checkTimeLine_pops_chain [of t "mTimeLine s" s] by simp
next
  case False
  then have "checkTimeLine_trace t s = []"
    by (auto simp: checkTimeLine_trace_def split: list.splits if_splits)
  then show ?thesis by simp
qed

text \<open>
  C3. For every entry popped from the Timeline during \<open>checkTimeLine\<close>, with the manager as
  it is at the moment of the pop: if the turn changes the Enabled or the Idle map, the entry's
  time equals the current expiry time of the scheme found in the Enabled map or, when it is
  found in the Idle map only, its current start time (and the entry is due); an entry whose ID
  is in neither map, or whose time differs from that start or expiry time, is discarded and
  leaves the manager, so both maps, unchanged. A popped entry that matches removes its scheme
  from the Enabled map, or moves it from the Idle map to the Enabled map. The popped entries
  are exactly the prefix of the Timeline that \<open>checkTimeLine\<close> removes, each turn starts
  from the manager the previous turn left, and the maps after \<open>checkTimeLine\<close> are those
  after the last popped entry.
\<close>

theorem timeline_pop_soundness:
  "(\<forall>(topPair, s1, s2) \<in> set (checkTimeLine_trace now s).
      (mEnabledCollectionSchemeMap s2 \<noteq> mEnabledCollectionSchemeMap s1 \<or>
       mIdleCollectionSchemeMap s2 \<noteq> mIdleCollectionSchemeMap s1 \<longrightarrow>
         entryMatches topPair s1 \<and> fst topPair \<le> now) \<and>
      (\<not> entryMatches topPair s1 \<longrightarrow> s2 = s1) \<and>
      (entryMatches topPair s1 \<longrightarrow>
         (case map_of (mEnabledCollectionSchemeMap s1) (snd topPair) of
            Some cs \<Rightarrow>
              map_of (mEnabledCollectionSchemeMap s2) (snd topPair) = None \<and>
              mIdleCollectionSchemeMap s2 = mIdleCollectionSchemeMap s1
          | None \<Rightarrow>
              map_of (mEnabledCollectionSchemeMap s2) (snd topPair) =
                map_of (mIdleCollectionSchemeMap s1) (snd topPair) \<and>
              map_of (mIdleCollectionSchemeMap s2) (snd topPair) = None))) \<and>
   mTimeLine s = map fst (checkTimeLine_trace now s) @ mTimeLine (snd (checkTimeLine now s)) \<and>
   (checkTimeLine_trace now s \<noteq> [] \<longrightarrow> fst (snd (hd (checkTimeLine_trace now s))) = s) \<and>
   (\<forall>i. Suc i < length (checkTimeLine_trace now s) \<longrightarrow>
      fst (snd (checkTimeLine_trace now s ! Suc i)) = snd (snd (checkTimeLine_trace now s ! i))) \<and>
   mEnabledCollectionSchemeMap (snd (checkTimeLine now s)) =
     mEnabledCollectionSchemeMap (afterPops s (checkTimeLine_trace now s)) \<and>
   mIdleCollectionSchemeMap (snd (checkTimeLine now s)) =
     mIdleCollectionSchemeMap (afterPops s (checkTimeLine_trace now s))"
proof -
  have step: "(mEnabledCollectionSchemeMap s2 \<noteq> mEnabledCollectionSchemeMap s1 \<or>
       mIdleCollectionSchemeMap s2 \<noteq> mIdleCollectionSchemeMap s1 \<longrightarrow>
         entryMatches e s1 \<and> fst e \<le> now) \<and>
      (\<not> entryMatches e s1 \<longrightarrow> s2 = s1) \<and>
      (entryMatches e s1 \<longrightarrow>
         (case map_of (mEnabledCollectionSchemeMap s1) (snd e) of
            Some cs \<Rightarrow>
              map_of (mEnabledCollectionSchemeMap s2) (snd e) = None \<and>
              mIdleCollectionSchemeMap s2 = mIdleCollectionSchemeMap s1
          | None \<Rightarrow>
              map_of (mEnabledCollectionSchemeMap s2) (snd e) =
                map_of (mIdleCollectionSchemeMap s1) (snd e) \<and>
              map_of (mIdleCollectionSchemeMap s2) (snd e) = None))"
    if "(e, s1, s2) \<in> set (checkTimeLine_trace now s)" for e s1 s2
  proof -
    from checkTimeLine_trace_sound [OF that] obtain f
      where b: "checkTimeLine_body now e s1 = Some (f, s2)" by blast
    show ?thesis
      using checkTimeLine_body_stale [OF b] checkTimeLine_body_due [OF b]
        checkTimeLine_body_flip [OF b] by auto
  qed
  have link: "mTimeLine s = map fst (checkTimeLine_trace now s) @ mTimeLine (snd (checkTimeLine now s))"
    using checkTimeLine_trace_link [of s now] by blast
  have fin: "snd (checkTimeLine now s) =
     (afterPops s (checkTimeLine_trace now s))
       \<lparr>mTimeLine := drop (length (checkTimeLine_trace now s)) (mTimeLine s)\<rparr>"
    using checkTimeLine_trace_link [of s now] by blast
  have maps: "mEnabledCollectionSchemeMap (snd (checkTimeLine now s)) =
     mEnabledCollectionSchemeMap (afterPops s (checkTimeLine_trace now s)) \<and>
   mIdleCollectionSchemeMap (snd (checkTimeLine now s)) =
     mIdleCollectionSchemeMap (afterPops s (checkTimeLine_trace now s))"
    by (subst (1 2) fin) simp
  have all: "\<forall>(topPair, s1, s2) \<in> set (checkTimeLine_trace now s).
      (mEnabledCollectionSchemeMap s2 \<noteq> mEnabledCollectionSchemeMap s1 \<or>
       mIdleCollectionSchemeMap s2 \<noteq> mIdleCollectionSchemeMap s1 \<longrightarrow>
         entryMatches topPair s1 \<and> fst topPair \<le> now) \<and>
      (\<not> entryMatches topPair s1 \<longrightarrow> s2 = s1) \<and>
      (entryMatches topPair s1 \<longrightarrow>
         (case map_of (mEnabledCollectionSchemeMap s1) (snd topPair) of
            Some cs \<Rightarrow>
              map_of (mEnabledCollectionSchemeMap s2) (snd topPair) = None \<and>
              mIdleCollectionSchemeMap s2 = mIdleCollectionSchemeMap s1
          | None \<Rightarrow>
              map_of (mEnabledCollectionSchemeMap s2) (snd topPair) =
                map_of (mIdleCollectionSchemeMap s1) (snd topPair) \<and>
              map_of (mIdleCollectionSchemeMap s2) (snd topPair) = None))"
    using step by (intro ballI) (simp only: split_paired_all prod.case, blast)
  from all link maps checkTimeLine_trace_chain [of now s] show ?thesis
    by (intro conjI) blast+
qed

lemmas checkTimeLine_defs =
  checkTimeLine_trace_def checkTimeLine_def checkTimeLine_body_def checkTimeLine_examine_def
  entryMatches_def exampleManager_def manager_def scheme_def Let_def

theorem timeline_pop_soundness_witness:
  "map fst (checkTimeLine_trace 4500 exampleManager) =
     [(2500, ''P2''), (3000, ''P1''), (4000, ''P2''), (5000, ''P1'')] \<and>
   \<not> entryMatches (2500, ''P2'') exampleManager \<and>
   snd (snd (hd (checkTimeLine_trace 4500 exampleManager))) = exampleManager \<and>
   entryMatches (3000, ''P1'') exampleManager \<and>
   mTimeLine (snd (checkTimeLine 4500 exampleManager)) = [(9000, ''P2'')] \<and>
   map fst (mEnabledCollectionSchemeMap (snd (checkTimeLine 4500 exampleManager))) = [''P2''] \<and>
   mIdleCollectionSchemeMap (snd (checkTimeLine 4500 exampleManager)) = []"
  using timeline_pop_soundness [of 4500 exampleManager]
  by (simp add: checkTimeLine_defs)

subsection \<open>What moves a scheme\<close>












































section \<open>Properties of the CAN raw frame reader\<close>

lemma fold_handleFrame_woke:
  "wokeUpFromSleep c \<Longrightarrow> fold handleFrame ms c = c"
  by (induction ms) (simp_all add: handleFrame_def)


lemma fold_handleFrame_awake:
  "\<not> wokeUpFromSleep c \<Longrightarrow>
   \<not> wokeUpFromSleep (fold handleFrame ms c) \<and>
   processMessage (fold handleFrame ms c) = processMessage c @ ms \<and>
   mReceivedMessages (fold handleFrame ms c) = mReceivedMessages c + of_nat (length ms) \<and>
   lastFrameTime (fold handleFrame ms c) = (if ms = [] then lastFrameTime c else timestamp (last ms))"
proof (induction ms arbitrary: c)
  case Nil
  then show ?case by simp
next
  case (Cons m ms)
  have "\<not> wokeUpFromSleep (handleFrame m c)"
    using Cons.prems by (simp add: handleFrame_def)
  from Cons.IH [OF this] Cons.prems show ?case
    by (simp add: handleFrame_def)
qed

lemma canDoWork_turn_woke:
  "wokeUpFromSleep c \<or> decoderDictionaryNull t \<Longrightarrow>
   processMessage (canDoWork_turn t c) = processMessage c \<and>
   mReceivedMessages (canDoWork_turn t c) = mReceivedMessages c \<and>
   lastFrameTime (canDoWork_turn t c) = lastFrameTime c \<and>
   notTimeMonotonicFrames (canDoWork_turn t c) = notTimeMonotonicFrames c \<and>
   (wokeUpFromSleep (canDoWork_turn t c) \<longleftrightarrow>
      \<not> nmsgs t < int PARALLEL_RECEIVED_FRAMES_FROM_KERNEL)"
proof -
  assume w: "wokeUpFromSleep c \<or> decoderDictionaryNull t"
  let ?c1 = "if decoderDictionaryNull t then c\<lparr>wokeUpFromSleep := True\<rparr> else c"
  have c1: "wokeUpFromSleep ?c1" using w by auto
  have f: "fold handleFrame (msg t) ?c1 = ?c1"
    by (rule fold_handleFrame_woke [OF c1])
  show ?thesis
    using c1 by (simp add: canDoWork_turn_def Let_def f)
qed

lemma canDoWork_turn_awake:
  "\<not> wokeUpFromSleep c \<Longrightarrow> \<not> decoderDictionaryNull t \<Longrightarrow>
   processMessage (canDoWork_turn t c) = processMessage c @ msg t \<and>
   mReceivedMessages (canDoWork_turn t c) = mReceivedMessages c + of_nat (length (msg t)) \<and>
   \<not> wokeUpFromSleep (canDoWork_turn t c)"
  using fold_handleFrame_awake [of c "msg t"]
  by (simp add: canDoWork_turn_def Let_def)

lemma canDoWork_full_batches:
  "wokeUpFromSleep c \<Longrightarrow>
   \<forall>t \<in> set ts. \<not> nmsgs t < int PARALLEL_RECEIVED_FRAMES_FROM_KERNEL \<Longrightarrow>
   wokeUpFromSleep (fold canDoWork_turn ts c) \<and>
   processMessage (fold canDoWork_turn ts c) = processMessage c \<and>
   mReceivedMessages (fold canDoWork_turn ts c) = mReceivedMessages c"
proof (induction ts arbitrary: c)
  case Nil
  then show ?case by simp
next
  case (Cons t ts)
  from canDoWork_turn_woke [of c t] Cons.prems
  have w: "wokeUpFromSleep (canDoWork_turn t c)"
    and p: "processMessage (canDoWork_turn t c) = processMessage c"
    and r: "mReceivedMessages (canDoWork_turn t c) = mReceivedMessages c"
    by simp_all
  from Cons.IH [OF w] Cons.prems(2) p r show ?case by simp
qed

text \<open>
  C8 (as amended). After the thread is woken from the dictionary-null sleep, every batch read
  from the socket is discarded (no frame of it is timestamped, counted or passed to the
  consumer) up to and including the first batch that is smaller than the maximum batch size;
  a full batch keeps the woke-up flag set. Once the flag is cleared, and while the dictionary
  is not null, all frames of a batch are counted and passed to the consumer in order. So
  after a wake, any number of full batches and the first short batch are dropped, and the
  batch after them is processed.
\<close>

theorem reader_discards_until_short_batch:
  "(wokeUpFromSleep c \<or> decoderDictionaryNull t \<longrightarrow>
      processMessage (canDoWork_turn t c) = processMessage c \<and>
      mReceivedMessages (canDoWork_turn t c) = mReceivedMessages c \<and>
      lastFrameTime (canDoWork_turn t c) = lastFrameTime c \<and>
      notTimeMonotonicFrames (canDoWork_turn t c) = notTimeMonotonicFrames c \<and>
      (wokeUpFromSleep (canDoWork_turn t c) \<longleftrightarrow>
         \<not> nmsgs t < int PARALLEL_RECEIVED_FRAMES_FROM_KERNEL)) \<and>
   (\<not> wokeUpFromSleep c \<and> \<not> decoderDictionaryNull t \<longrightarrow>
      processMessage (canDoWork_turn t c) = processMessage c @ msg t \<and>
      mReceivedMessages (canDoWork_turn t c) = mReceivedMessages c + of_nat (length (msg t)) \<and>
      \<not> wokeUpFromSleep (canDoWork_turn t c)) \<and>
   (wokeUpFromSleep c \<and>
    (\<forall>b \<in> set full. \<not> nmsgs b < int PARALLEL_RECEIVED_FRAMES_FROM_KERNEL) \<and>
    nmsgs short < int PARALLEL_RECEIVED_FRAMES_FROM_KERNEL \<and>
    \<not> decoderDictionaryNull later \<longrightarrow>
      processMessage (canDoWork_turn short (fold canDoWork_turn full c)) = processMessage c \<and>
      processMessage (canDoWork_turn later (canDoWork_turn short (fold canDoWork_turn full c))) =
        processMessage c @ msg later)"
proof (intro conjI impI)
  assume a: "wokeUpFromSleep c \<and>
    (\<forall>b \<in> set full. \<not> nmsgs b < int PARALLEL_RECEIVED_FRAMES_FROM_KERNEL) \<and>
    nmsgs short < int PARALLEL_RECEIVED_FRAMES_FROM_KERNEL \<and>
    \<not> decoderDictionaryNull later"
  let ?c1 = "fold canDoWork_turn full c"
  from a canDoWork_full_batches [of c full]
  have w1: "wokeUpFromSleep ?c1" and p1: "processMessage ?c1 = processMessage c"
    by simp_all
  from canDoWork_turn_woke [of ?c1 short] w1 a
  have w2: "\<not> wokeUpFromSleep (canDoWork_turn short ?c1)"
    and p2: "processMessage (canDoWork_turn short ?c1) = processMessage ?c1"
    by simp_all
  show "processMessage (canDoWork_turn short ?c1) = processMessage c"
    using p1 p2 by simp
  from canDoWork_turn_awake [OF w2, of later] a p1 p2
  show "processMessage (canDoWork_turn later (canDoWork_turn short ?c1)) =
        processMessage c @ msg later"
    by simp
qed (use canDoWork_turn_woke [of c t] canDoWork_turn_awake [of c t] in simp_all)

theorem reader_discards_until_short_batch_witness:
  "processMessage (canDoWork_turn
      \<lparr>decoderDictionaryNull = True, recvmmsg = Some [exampleMessage 1, exampleMessage 2]\<rparr>
      readerStart) = [] \<and>
   \<not> wokeUpFromSleep (canDoWork_turn
      \<lparr>decoderDictionaryNull = True, recvmmsg = Some [exampleMessage 1, exampleMessage 2]\<rparr>
      readerStart) \<and>
   processMessage (canDoWork_turn
      \<lparr>decoderDictionaryNull = False, recvmmsg = Some [exampleMessage 3, exampleMessage 4]\<rparr>
      readerStart) = [exampleMessage 3, exampleMessage 4] \<and>
   processMessage
     (canDoWork_turn \<lparr>decoderDictionaryNull = False, recvmmsg = Some [exampleMessage 12]\<rparr>
       (canDoWork_turn \<lparr>decoderDictionaryNull = False, recvmmsg = None\<rparr>
         (fold canDoWork_turn [] (readerStart\<lparr>wokeUpFromSleep := True\<rparr>)))) = [exampleMessage 12]"
  using reader_discards_until_short_batch [of readerStart
      "\<lparr>decoderDictionaryNull = True, recvmmsg = Some [exampleMessage 1, exampleMessage 2]\<rparr>"
      "[]" "\<lparr>decoderDictionaryNull = False, recvmmsg = None\<rparr>"
      "\<lparr>decoderDictionaryNull = False, recvmmsg = Some [exampleMessage 12]\<rparr>"]
    reader_discards_until_short_batch [of readerStart
      "\<lparr>decoderDictionaryNull = False, recvmmsg = Some [exampleMessage 3, exampleMessage 4]\<rparr>"
      "[]" "\<lparr>decoderDictionaryNull = False, recvmmsg = None\<rparr>"
      "\<lparr>decoderDictionaryNull = False, recvmmsg = Some [exampleMessage 12]\<rparr>"]
    reader_discards_until_short_batch [of "readerStart\<lparr>wokeUpFromSleep := True\<rparr>"
      "\<lparr>decoderDictionaryNull = False, recvmmsg = None\<rparr>"
      "[]" "\<lparr>decoderDictionaryNull = False, recvmmsg = None\<rparr>"
      "\<lparr>decoderDictionaryNull = False, recvmmsg = Some [exampleMessage 12]\<rparr>"]
  by (simp add: msg_def nmsgs_def PARALLEL_RECEIVED_FRAMES_FROM_KERNEL_def readerStart_def)

text \<open>
  After a wake whose first batch is full (ten frames), the second batch of one frame is
  discarded as well: nothing reaches the consumer.
\<close>

theorem reader_second_batch_discarded_counterexample:
  "msg \<lparr>decoderDictionaryNull = False, recvmmsg = Some [exampleMessage 11]\<rparr> = [exampleMessage 11] \<and>
   processMessage
     (canDoWork_turn \<lparr>decoderDictionaryNull = False, recvmmsg = Some [exampleMessage 11]\<rparr>
        (canDoWork_turn
           \<lparr>decoderDictionaryNull = True,
            recvmmsg = Some [exampleMessage 1, exampleMessage 2, exampleMessage 3, exampleMessage 4,
                    exampleMessage 5, exampleMessage 6, exampleMessage 7, exampleMessage 8,
                    exampleMessage 9, exampleMessage 10]\<rparr>
           readerStart)) = []"
proof -
  let ?t1 = "\<lparr>decoderDictionaryNull = True,
            recvmmsg = Some [exampleMessage 1, exampleMessage 2, exampleMessage 3, exampleMessage 4,
                    exampleMessage 5, exampleMessage 6, exampleMessage 7, exampleMessage 8,
                    exampleMessage 9, exampleMessage 10]\<rparr>"
  let ?t2 = "\<lparr>decoderDictionaryNull = False, recvmmsg = Some [exampleMessage 11]\<rparr>"
  have n1: "nmsgs ?t1 = 10"
    by (simp add: nmsgs_def PARALLEL_RECEIVED_FRAMES_FROM_KERNEL_def)
  have n2: "nmsgs ?t2 = 1" and m2: "msg ?t2 = [exampleMessage 11]"
    by (simp_all add: nmsgs_def msg_def PARALLEL_RECEIVED_FRAMES_FROM_KERNEL_def)
  have c1: "canDoWork_turn ?t1 readerStart = readerStart\<lparr>wokeUpFromSleep := True\<rparr>"
    by (simp add: canDoWork_turn_def n1 PARALLEL_RECEIVED_FRAMES_FROM_KERNEL_def
        fold_handleFrame_woke Let_def)
  have c2: "processMessage (canDoWork_turn ?t2 (readerStart\<lparr>wokeUpFromSleep := True\<rparr>)) = []"
    by (simp add: canDoWork_turn_def n2 m2 PARALLEL_RECEIVED_FRAMES_FROM_KERNEL_def
        handleFrame_def readerStart_def)
  from m2 c2 show ?thesis unfolding c1 by simp
qed

section \<open>Properties of the sender worker\<close>






end
